theory Spec2Isabelle
  imports Complex_Main "HOL-Library.List_Lexorder" "HOL-Library.Char_ord"
begin

section \<open>Numbers and rounding\<close>

text \<open>
  The backend computes money and percentages with JavaScript numbers. The specification
  speaks of decimals, and the development follows it: a number is an exact rational
  (\<^typ>\<open>rat\<close>), so the binary representation error of a double is outside the model.
  \<open>Math.round\<close> returns the nearest integer and resolves a tie towards plus infinity.
\<close>

definition Math_round :: "rat \<Rightarrow> int" where
  "Math_round x = \<lfloor>x + 1 / 2\<rfloor>"


text \<open>\<open>CommissionHelper.calculateCommission\<close> of \<open>utils/helpers.ts\<close>.\<close>

definition CommissionHelper_calculateCommission :: "rat \<Rightarrow> rat \<Rightarrow> rat" where
  "CommissionHelper_calculateCommission amount rate =
     rat_of_int (Math_round ((amount * rate / 100) * 100)) / 100"

text \<open>
  The rounding of the specification, written from its words: two decimal places,
  half away from zero on the scaled number.
\<close>

definition round2_spec :: "rat \<Rightarrow> rat" where
  "round2_spec x = sgn x * rat_of_int \<lfloor>\<bar>x\<bar> * 100 + 1 / 2\<rfloor> / 100"

definition is_hundredths :: "rat \<Rightarrow> bool" where
  "is_hundredths x = (rat_of_int \<lfloor>x * 100\<rfloor> = x * 100)"

section \<open>Documents and collections\<close>

text \<open>
  A document identifier (\<open>_id\<close>, a well-formed ObjectId) is a natural number, a date
  is a number of milliseconds. Fields carry a prefix for their schema, since two
  schemas share field names.
\<close>

type_synonym object_id = nat
type_synonym date = nat

datatype PaymentStatus = PAID | PENDING | PARTIAL

datatype PaymentMode = CASH | CARD | ONLINE | CASH_ONLINE | CASH_CARD | INSURANCE | DUE

datatype CommissionType = TEST_REFERRAL

record Doctor =
  d_name :: string
  d_email :: string

record Test =
  t_price :: rat
  t_commissionRate :: rat
  t_isActive :: bool

record OrderTest =
  ot_testId :: object_id
  ot_price :: rat

record TestOrder =
  o_id :: object_id
  o_orderId :: string
  o_patientId :: string
  o_referringDoctorId :: "object_id option"
  o_tests :: "OrderTest list"
  o_totalAmount :: rat
  o_commissionAmount :: rat
  o_paymentMode :: PaymentMode
  o_paymentStatus :: PaymentStatus
  o_branchId :: string
  o_createdAt :: date

record Commission =
  c_id :: object_id
  c_doctorId :: object_id
  c_patientId :: string
  c_orderId :: object_id
  c_commissionType :: CommissionType
  c_amount :: rat
  c_percentage :: rat
  c_calculatedDate :: date
  c_paymentStatus :: PaymentStatus
  c_paymentDate :: "date option"
  c_branchId :: string

record PatientVisit =
  v_branchId :: string
  v_consultationFee :: rat
  v_paymentMode :: PaymentMode
  v_paymentStatus :: PaymentStatus
  v_createdAt :: date

record Expense =
  e_amount :: rat
  e_category :: string
  e_date :: date
  e_branchId :: string
  e_createdAt :: date

datatype log_level = INFO | WARN | ERROR

text \<open>
  The state of the system: the collections of the document store and the log written by
  \<open>logger\<close>. A log entry keeps the level and the fixed text of the message.
\<close>

record state =
  orders :: "TestOrder list"
  doctors :: "object_id \<Rightarrow> Doctor option"
  tests :: "object_id \<Rightarrow> Test option"
  commissions :: "Commission list"
  visits :: "PatientVisit list"
  expenses :: "Expense list"
  logs :: "(log_level \<times> string) list"

definition logger_info :: "string \<Rightarrow> state \<Rightarrow> state" where
  "logger_info msg s = s\<lparr>logs := logs s @ [(INFO, msg)]\<rparr>"

definition logger_warn :: "string \<Rightarrow> state \<Rightarrow> state" where
  "logger_warn msg s = s\<lparr>logs := logs s @ [(WARN, msg)]\<rparr>"

definition logger_error :: "string \<Rightarrow> state \<Rightarrow> state" where
  "logger_error msg s = s\<lparr>logs := logs s @ [(ERROR, msg)]\<rparr>"

section \<open>Responses\<close>

text \<open>\<open>ResponseHelper\<close> of \<open>utils/helpers.ts\<close>; the status code of an error defaults to 500.\<close>

datatype 'a Response =
  Success 'a string nat
  | Failure string nat

definition ResponseHelper_success :: "'a \<Rightarrow> string \<Rightarrow> 'a Response" where
  "ResponseHelper_success data message = Success data message 200"

definition ResponseHelper_error :: "string \<Rightarrow> nat option \<Rightarrow> 'a Response" where
  "ResponseHelper_error message statusCode =
     Failure message (case statusCode of None \<Rightarrow> 500 | Some c \<Rightarrow> c)"

section \<open>The e-mail service\<close>

text \<open>
  \<open>EmailService.sendEmail\<close> wraps the transport in a try block and answers with a
  boolean. The transport is a parameter: it tells, for a message, whether
  \<open>getTransporter\<close> and \<open>sendMail\<close> complete (\<open>True\<close>) or throw (\<open>False\<close>).
\<close>

record EmailOptions =
  m_to :: string
  m_subject :: string
  m_doctorName :: string
  m_amount :: rat
  m_period :: date

type_synonym transport = "EmailOptions \<Rightarrow> bool"

definition sendEmail :: "transport \<Rightarrow> EmailOptions \<Rightarrow> state \<Rightarrow> bool \<times> state" where
  "sendEmail tr options s =
     (if tr options then (True, logger_info ''Email sent successfully'' s)
      else (False, logger_error ''Email sending failed:'' s))"

definition sendCommissionNotification ::
  "transport \<Rightarrow> string \<Rightarrow> string \<Rightarrow> rat \<Rightarrow> date \<Rightarrow> state \<Rightarrow> bool \<times> state" where
  "sendCommissionNotification tr email doctorName amount period s =
     sendEmail tr
       \<lparr>m_to = email, m_subject = ''Commission Payment Notification'',
        m_doctorName = doctorName, m_amount = amount, m_period = period\<rparr> s"

section \<open>The commission model\<close>

text \<open>
  Queries of the models. \<open>populate\<close> replaces a reference by the referenced document
  (kept here with its identifier), or by null when there is none.
\<close>

definition TestOrder_findById :: "state \<Rightarrow> object_id \<Rightarrow> TestOrder option" where
  "TestOrder_findById s i = find (\<lambda>order. o_id order = i) (orders s)"

definition Commission_findById :: "state \<Rightarrow> object_id \<Rightarrow> Commission option" where
  "Commission_findById s i = find (\<lambda>c. c_id c = i) (commissions s)"

definition Commission_findOne_orderId :: "state \<Rightarrow> object_id \<Rightarrow> Commission option" where
  "Commission_findOne_orderId s i = find (\<lambda>c. c_orderId c = i) (commissions s)"

definition populate_doctor :: "state \<Rightarrow> object_id option \<Rightarrow> (object_id \<times> Doctor) option" where
  "populate_doctor s r =
     (case r of
        None \<Rightarrow> None
      | Some i \<Rightarrow> (case doctors s i of None \<Rightarrow> None | Some doctor \<Rightarrow> Some (i, doctor)))"

text \<open>
  The validators of \<open>CommissionSchema\<close>: the amount is at least 0 and the percentage
  lies between 0 and 100. The other required fields are always set by the callers.
\<close>

definition Commission_validate :: "Commission \<Rightarrow> bool" where
  "Commission_validate c = (0 \<le> c_amount c \<and> 0 \<le> c_percentage c \<and> c_percentage c \<le> 100)"

text \<open>
  The identifier of a new document is one that no document of the collection has.
\<close>

definition fresh_id :: "Commission list \<Rightarrow> object_id" where
  "fresh_id cs = Suc (fold max (map c_id cs) 0)"

text \<open>
  Saving a new document validates it and inserts it. The schema declares plain indexes
  only (\<open>CommissionSchema.index({ orderId: 1 })\<close>), so the insertion checks nothing
  else. A failed validation throws.
\<close>

definition Commission_insert :: "Commission \<Rightarrow> state \<Rightarrow> unit + state" where
  "Commission_insert c s =
     (if Commission_validate c then Inr (s\<lparr>commissions := commissions s @ [c]\<rparr>)
      else Inl ())"

text \<open>
  Saving a loaded document writes it over the stored document of the same identifier.
  Only the payment status and date are modified by the callers, and they pass the
  validators.
\<close>

definition Commission_update :: "Commission \<Rightarrow> state \<Rightarrow> state" where
  "Commission_update c s =
     s\<lparr>commissions := map (\<lambda>d. if c_id d = c_id c then c else d) (commissions s)\<rparr>"

section \<open>The commission service\<close>

record totals =
  totalCommission :: rat
  totalAmount :: rat
  commissionRateSum :: rat
  validTestsCount :: nat

text \<open>The loop over the tests of an order in \<open>CommissionService.calculateCommission\<close>.\<close>

fun commission_loop :: "(object_id \<Rightarrow> Test option) \<Rightarrow> OrderTest list \<Rightarrow> totals \<Rightarrow> totals" where
  "commission_loop T [] acc = acc"
| "commission_loop T (test # rest) acc =
     (case T (ot_testId test) of
        None \<Rightarrow> commission_loop T rest acc
      | Some testData \<Rightarrow>
          if 0 \<le> t_commissionRate testData \<and> t_commissionRate testData \<le> 100
          then commission_loop T rest
                 \<lparr>totalCommission = totalCommission acc
                    + CommissionHelper_calculateCommission (ot_price test) (t_commissionRate testData),
                  totalAmount = totalAmount acc + ot_price test,
                  commissionRateSum = commissionRateSum acc + t_commissionRate testData,
                  validTestsCount = validTestsCount acc + 1\<rparr>
          else commission_loop T rest acc)"

definition totals0 :: totals where
  "totals0 = \<lparr>totalCommission = 0, totalAmount = 0, commissionRateSum = 0, validTestsCount = 0\<rparr>"

record calculated =
  r_commission :: Commission
  r_orderId :: string
  r_totalAmount :: rat
  r_commissionAmount :: rat
  r_doctorName :: string
  r_doctorEmail :: string

text \<open>
  \<open>CommissionService.calculateCommission\<close>. The clock gives the default of
  \<open>calculatedDate\<close>; the default of the payment status is PENDING. An exception (here the
  failed validation of the new document) is caught, logged and answered with status 500.
\<close>

definition CommissionService_calculateCommission ::
  "date \<Rightarrow> object_id \<Rightarrow> state \<Rightarrow> calculated Response \<times> state" where
  "CommissionService_calculateCommission now orderId s =
     (case TestOrder_findById s orderId of
        None \<Rightarrow> (ResponseHelper_error ''Order not found'' (Some 404), s)
      | Some order \<Rightarrow>
         (case populate_doctor s (o_referringDoctorId order) of
            None \<Rightarrow>
              (ResponseHelper_error ''No referring doctor found for commission calculation'' (Some 400), s)
          | Some (doctorId, doctor) \<Rightarrow>
             (let acc = commission_loop (tests s) (o_tests order) totals0;
                  averagePercentage =
                    (if validTestsCount acc > 0
                     then commissionRateSum acc / of_nat (validTestsCount acc) else 0)
              in case Commission_findOne_orderId s (o_id order) of
                   Some existingCommission \<Rightarrow>
                     (ResponseHelper_error ''Commission already calculated for this order'' (Some 400), s)
                 | None \<Rightarrow>
                    (let commission =
                           \<lparr>c_id = fresh_id (commissions s),
                            c_doctorId = doctorId,
                            c_patientId = o_patientId order,
                            c_orderId = o_id order,
                            c_commissionType = TEST_REFERRAL,
                            c_amount = rat_of_int (Math_round (totalCommission acc * 100)) / 100,
                            c_percentage = rat_of_int (Math_round (averagePercentage * 100)) / 100,
                            c_calculatedDate = now,
                            c_paymentStatus = PENDING,
                            c_paymentDate = None,
                            c_branchId = o_branchId order\<rparr>
                     in case Commission_insert commission s of
                          Inl err \<Rightarrow>
                            (ResponseHelper_error ''Failed to calculate commission'' None,
                             logger_error ''Commission calculation error:'' s)
                        | Inr s' \<Rightarrow>
                            (ResponseHelper_success
                               \<lparr>r_commission = commission,
                                r_orderId = o_orderId order,
                                r_totalAmount = o_totalAmount order,
                                r_commissionAmount = totalCommission acc,
                                r_doctorName = d_name doctor,
                                r_doctorEmail = d_email doctor\<rparr>
                               ''Commission calculated successfully'',
                             logger_info ''Commission calculated'' s')))))"

text \<open>
  \<open>CommissionService.payCommission\<close>. The document is saved before the doctor is read:
  when the populated doctor is null, reading its e-mail address throws after the save,
  and the catch block answers with status 500.
\<close>

definition mark_paid :: "date \<Rightarrow> Commission \<Rightarrow> Commission" where
  "mark_paid now c = c\<lparr>c_paymentStatus := PAID, c_paymentDate := Some now\<rparr>"

definition CommissionService_payCommission ::
  "transport \<Rightarrow> date \<Rightarrow> object_id \<Rightarrow> string \<Rightarrow> state \<Rightarrow> Commission Response \<times> state" where
  "CommissionService_payCommission tr now commissionId paidBy s =
     (case Commission_findById s commissionId of
        None \<Rightarrow> (ResponseHelper_error ''Commission not found'' (Some 404), s)
      | Some commission \<Rightarrow>
          if c_paymentStatus commission = PAID
          then (ResponseHelper_error ''Commission already paid'' (Some 400), s)
          else
            (let commission' = mark_paid now commission;
                 s1 = Commission_update commission' s
             in case doctors s (c_doctorId commission) of
                  None \<Rightarrow>
                    (ResponseHelper_error ''Failed to process commission payment'' None,
                     logger_error ''Pay commission error:'' s1)
                | Some doctor \<Rightarrow>
                    (let (sent, s2) =
                           sendCommissionNotification tr (d_email doctor) (d_name doctor)
                             (c_amount commission') (c_calculatedDate commission') s1
                     in (ResponseHelper_success commission'
                           ''Commission payment processed successfully'',
                         logger_info ''Commission paid'' s2))))"

record paid_result =
  p_commissionId :: object_id
  p_doctorName :: string
  p_amount :: rat
  p_paid :: bool

record bulk_paid =
  b_paidCommissions :: nat
  b_totalAmount :: rat
  b_results :: "paid_result list"

text \<open>
  The loop of \<open>CommissionService.bulkPayCommissions\<close> over the documents found. It
  returns the results, or nothing when an iteration throws; the state keeps what was
  saved before.
\<close>

fun bulkPay_loop ::
  "transport \<Rightarrow> date \<Rightarrow> Commission list \<Rightarrow> paid_result list \<Rightarrow> state
     \<Rightarrow> paid_result list option \<times> state" where
  "bulkPay_loop tr now [] results s = (Some results, s)"
| "bulkPay_loop tr now (commission # rest) results s =
     (let commission' = mark_paid now commission;
          s1 = Commission_update commission' s
      in case doctors s (c_doctorId commission) of
           None \<Rightarrow> (None, s1)
         | Some doctor \<Rightarrow>
             (let (sent, s2) =
                    sendCommissionNotification tr (d_email doctor) (d_name doctor)
                      (c_amount commission') (c_calculatedDate commission') s1
              in bulkPay_loop tr now rest
                   (results @ [\<lparr>p_commissionId = c_id commission', p_doctorName = d_name doctor,
                                p_amount = c_amount commission', p_paid = True\<rparr>])
                   (logger_info ''Commission paid'' s2)))"

definition Commission_find_pending :: "state \<Rightarrow> object_id list \<Rightarrow> Commission list" where
  "Commission_find_pending s commissionIds =
     filter (\<lambda>c. c_id c \<in> set commissionIds \<and> c_paymentStatus c = PENDING) (commissions s)"

definition CommissionService_bulkPayCommissions ::
  "transport \<Rightarrow> date \<Rightarrow> object_id list \<Rightarrow> string \<Rightarrow> state \<Rightarrow> bulk_paid Response \<times> state" where
  "CommissionService_bulkPayCommissions tr now commissionIds paidBy s =
     (let found = Commission_find_pending s commissionIds
      in if length found = 0
         then (ResponseHelper_error ''No pending commissions found'' (Some 404), s)
         else
           (case bulkPay_loop tr now found [] s of
              (None, s') \<Rightarrow>
                (ResponseHelper_error ''Failed to process bulk commission payments'' None,
                 logger_error ''Bulk pay commissions error:'' s')
            | (Some results, s') \<Rightarrow>
                (ResponseHelper_success
                   \<lparr>b_paidCommissions = length results,
                    b_totalAmount = fold (\<lambda>result sum. sum + p_amount result) results 0,
                    b_results = results\<rparr>
                   ''commission payments processed successfully'', s')))"

text \<open>
  The operations that write the commission collection, and a run of them. Each step
  has its own clock reading and transport behaviour.
\<close>

datatype operation =
  CalculateCommission object_id
  | PayCommission object_id string
  | BulkPayCommissions "object_id list" string

fun step :: "transport \<times> date \<times> operation \<Rightarrow> state \<Rightarrow> state" where
  "step (tr, now, CalculateCommission orderId) s =
     snd (CommissionService_calculateCommission now orderId s)"
| "step (tr, now, PayCommission commissionId paidBy) s =
     snd (CommissionService_payCommission tr now commissionId paidBy s)"
| "step (tr, now, BulkPayCommissions commissionIds paidBy) s =
     snd (CommissionService_bulkPayCommissions tr now commissionIds paidBy s)"

definition run :: "(transport \<times> date \<times> operation) list \<Rightarrow> state \<Rightarrow> state" where
  "run ops s = fold step ops s"

section \<open>The commission record as the specification describes it\<close>

text \<open>
  The lines of an order that qualify (the test document exists and its rate lies between
  0 and 100), each with its price and rate, and the record that the specification
  prescribes for an order: the sum of the commissions of the qualifying lines and the
  rounded mean of their rates.
\<close>

definition qualifying_lines :: "(object_id \<Rightarrow> Test option) \<Rightarrow> OrderTest list \<Rightarrow> (rat \<times> rat) list" where
  "qualifying_lines T lines =
     List.map_filter
       (\<lambda>test. case T (ot_testId test) of
                  None \<Rightarrow> None
                | Some testData \<Rightarrow>
                    if 0 \<le> t_commissionRate testData \<and> t_commissionRate testData \<le> 100
                    then Some (ot_price test, t_commissionRate testData) else None)
       lines"

definition new_commission :: "date \<Rightarrow> state \<Rightarrow> TestOrder \<Rightarrow> object_id \<Rightarrow> Commission" where
  "new_commission now s order doctorId =
     (let Q = qualifying_lines (tests s) (o_tests order)
      in \<lparr>c_id = fresh_id (commissions s),
          c_doctorId = doctorId,
          c_patientId = o_patientId order,
          c_orderId = o_id order,
          c_commissionType = TEST_REFERRAL,
          c_amount = sum_list (map (\<lambda>(p, r). CommissionHelper_calculateCommission p r) Q),
          c_percentage = (if Q = [] then 0 else round2_spec (sum_list (map snd Q) / of_nat (length Q))),
          c_calculatedDate = now,
          c_paymentStatus = PENDING,
          c_paymentDate = None,
          c_branchId = o_branchId order\<rparr>)"

text \<open>The commission of an identifier is stored with status PAID.\<close>

definition is_paid :: "state \<Rightarrow> object_id \<Rightarrow> bool" where
  "is_paid s i =
     (case Commission_findById s i of None \<Rightarrow> False | Some c \<Rightarrow> c_paymentStatus c = PAID)"

text \<open>
  The entry of the result list for a paid commission, and the test that a commission
  is one of the given identifiers and stored with status PENDING.
\<close>

definition result_of :: "state \<Rightarrow> Commission \<Rightarrow> paid_result" where
  "result_of s c =
     \<lparr>p_commissionId = c_id c,
      p_doctorName = (case doctors s (c_doctorId c) of None \<Rightarrow> [] | Some doctor \<Rightarrow> d_name doctor),
      p_amount = c_amount c, p_paid = True\<rparr>"

definition is_pending_of :: "object_id list \<Rightarrow> Commission \<Rightarrow> bool" where
  "is_pending_of commissionIds c = (c_id c \<in> set commissionIds \<and> c_paymentStatus c = PENDING)"

text \<open>
  The identifier, order reference and doctor reference of each stored commission, and
  the well-formedness of the collection: identifiers are distinct (as the store
  guarantees for \<open>_id\<close>) and every commission refers to an existing doctor.
\<close>

definition keys :: "state \<Rightarrow> (object_id \<times> object_id \<times> object_id) list" where
  "keys s = map (\<lambda>c. (c_id c, c_orderId c, c_doctorId c)) (commissions s)"

definition ledger_wf :: "state \<Rightarrow> bool" where
  "ledger_wf s =
     (distinct (map c_id (commissions s))
      \<and> (\<forall>c \<in> set (commissions s). doctors s (c_doctorId c) \<noteq> None))"


section \<open>Creation of a test order\<close>

text \<open>
  The body of a request to create a test order, after \<open>createTestOrderSchema\<close> has
  validated it: every line has a test reference, a name and a price, and the referring
  doctor and the payment mode are present.
\<close>

record TestLine =
  rq_testId :: object_id
  rq_testName :: string
  rq_price :: rat

record OrderRequest =
  rq_patientId :: string
  rq_visitId :: object_id
  rq_referringDoctorId :: object_id
  rq_tests :: "TestLine list"
  rq_paymentMode :: PaymentMode
  rq_paymentStatus :: PaymentStatus
  rq_branchId :: "string option"

text \<open>
  What the collaborators outside the model answer during the request: whether the
  patient and the visit exist, the order identifier issued by \<open>IDGenerator\<close>, and the
  clock.
\<close>

record Collaborators =
  k_patientFound :: bool
  k_visitFound :: bool
  k_orderId :: string
  k_now :: date

text \<open>
  \<open>Test.find({ _id: { $in: testIds }, isActive: true })\<close>: the active tests among the
  referenced ones, each once.
\<close>

definition Test_find_active :: "state \<Rightarrow> object_id list \<Rightarrow> (object_id \<times> Test) list" where
  "Test_find_active s testIds =
     List.map_filter
       (\<lambda>i. case tests s i of
              None \<Rightarrow> None
            | Some testDetail \<Rightarrow> if t_isActive testDetail then Some (i, testDetail) else None)
       (remdups testIds)"

text \<open>
  The loop \<open>tests.map\<close> of \<open>createTestOrder\<close>: it adds up the total amount (\<open>totalAmount\<close> in the source) and the
  commission amount and builds the lines of the order. \<open>a || b\<close> on numbers takes
  \<open>b\<close> when \<open>a\<close> is 0; the price of a line whose test is not found and whose
  requested price is 0 is undefined.
\<close>

fun createTestOrder_loop ::
  "(object_id \<times> Test) list \<Rightarrow> TestLine list \<Rightarrow> rat \<times> rat
     \<Rightarrow> (rat \<times> rat) \<times> (object_id \<times> rat option) list" where
  "createTestOrder_loop testDetails [] acc = (acc, [])"
| "createTestOrder_loop testDetails (orderTest # rest) (orderTotal, commissionAmount) =
     (case find (\<lambda>t. fst t = rq_testId orderTest) testDetails of
        None \<Rightarrow>
          (let (acc, lines) = createTestOrder_loop testDetails rest (orderTotal, commissionAmount)
           in (acc,
               (rq_testId orderTest,
                if rq_price orderTest = 0 then None else Some (rq_price orderTest)) # lines))
      | Some (i, testDetail) \<Rightarrow>
          (let price = (if rq_price orderTest = 0 then t_price testDetail else rq_price orderTest);
               (acc, lines) = createTestOrder_loop testDetails rest
                  (orderTotal + price,
                   commissionAmount
                     + CommissionHelper_calculateCommission price (t_commissionRate testDetail))
           in (acc, (rq_testId orderTest, Some price) # lines)))"

text \<open>
  The validators of \<open>TestOrderSchema\<close> on the fields that the handler computes: every
  line has a price of at least 0, and the two amounts are at least 0. A document that
  passes is the stored order.
\<close>

fun cast_lines :: "(object_id \<times> rat option) list \<Rightarrow> OrderTest list option" where
  "cast_lines [] = Some []"
| "cast_lines ((i, None) # rest) = None"
| "cast_lines ((i, Some p) # rest) =
     (if 0 \<le> p
      then (case cast_lines rest of
              None \<Rightarrow> None
            | Some lines \<Rightarrow> Some (\<lparr>ot_testId = i, ot_price = p\<rparr> # lines))
      else None)"

definition fresh_order_id :: "TestOrder list \<Rightarrow> object_id" where
  "fresh_order_id os = Suc (fold max (map o_id os) 0)"

text \<open>
  \<open>OPDController.createTestOrder\<close>. The answer is the HTTP status with the body. An
  exception (the failed validation of the order) is caught, logged and answered with
  status 500. The result of the calculation of the commission is only logged.
\<close>

definition OPDController_createTestOrder ::
  "Collaborators \<Rightarrow> string option \<Rightarrow> OrderRequest \<Rightarrow> state
     \<Rightarrow> (nat \<times> TestOrder Response) \<times> state" where
  "OPDController_createTestOrder k userBranchId req s =
     (let branchId = (case userBranchId of
                        None \<Rightarrow> rq_branchId req
                      | Some b \<Rightarrow> if b = [] then rq_branchId req else Some b)
      in case branchId of
           None \<Rightarrow> ((400, ResponseHelper_error ''Branch ID required'' (Some 400)), s)
         | Some branch \<Rightarrow>
             if branch = [] then ((400, ResponseHelper_error ''Branch ID required'' (Some 400)), s)
             else if \<not> k_patientFound k
             then ((404, ResponseHelper_error ''Patient not found'' (Some 404)), s)
             else if \<not> k_visitFound k
             then ((404, ResponseHelper_error ''Visit not found'' (Some 404)), s)
             else
               (let testIds = map rq_testId (rq_tests req);
                    testDetails = Test_find_active s testIds
                in if length testDetails \<noteq> length (rq_tests req)
                   then ((400, ResponseHelper_error ''Some tests are not found or inactive'' (Some 400)), s)
                   else
                     (let ((orderTotal, commissionAmount), orderTests) =
                            createTestOrder_loop testDetails (rq_tests req) (0, 0)
                      in case cast_lines orderTests of
                           None \<Rightarrow>
                             ((500, ResponseHelper_error ''Failed to create test order'' None),
                              logger_error ''Create test order error:'' s)
                         | Some lines \<Rightarrow>
                             if \<not> (0 \<le> orderTotal \<and> 0 \<le> commissionAmount)
                             then ((500, ResponseHelper_error ''Failed to create test order'' None),
                                   logger_error ''Create test order error:'' s)
                             else
                               (let testOrder =
                                      \<lparr>o_id = fresh_order_id (orders s),
                                       o_orderId = k_orderId k,
                                       o_patientId = rq_patientId req,
                                       o_referringDoctorId = Some (rq_referringDoctorId req),
                                       o_tests = lines,
                                       o_totalAmount = orderTotal,
                                       o_commissionAmount = commissionAmount,
                                       o_paymentMode = rq_paymentMode req,
                                       o_paymentStatus = rq_paymentStatus req,
                                       o_branchId = branch,
                                       o_createdAt = k_now k\<rparr>;
                                    s1 = s\<lparr>orders := orders s @ [testOrder]\<rparr>;
                                    (commissionResult, s2) =
                                      CommissionService_calculateCommission (k_now k) (o_id testOrder) s1;
                                    s3 = (case commissionResult of
                                            Success d m c \<Rightarrow> s2
                                          | Failure m c \<Rightarrow>
                                              logger_warn ''Commission calculation failed for order'' s2)
                                in ((201, ResponseHelper_success testOrder
                                            ''Test order created successfully''),
                                    logger_info ''Test order created'' s3)))))"




section \<open>Accounts reports\<close>

text \<open>
  The caller that \<open>authenticate\<close> attaches to the request, and \<open>authorize\<close> of the
  role middleware: status 401 without a caller, 403 for a role that is not allowed.
\<close>

datatype UserRole =
  ADMIN | BRANCH_MANAGER | OPD_STAFF | LAB_STAFF | PHARMACY_STAFF | MARKETING_EMPLOYEE
  | GENERAL_EMPLOYEE














subsection \<open>The monthly financial statement\<close>






















subsection \<open>The daily collection\<close>























section \<open>Example data\<close>

text \<open>A small database on which the theorems below are run.\<close>

definition demo_doctor :: Doctor where
  "demo_doctor = \<lparr>d_name = ''Rao'', d_email = ''rao@heal.example''\<rparr>"

definition demo_tests :: "object_id \<Rightarrow> Test option" where
  "demo_tests =
     [1 \<mapsto> \<lparr>t_price = 100, t_commissionRate = 10, t_isActive = True\<rparr>,
      2 \<mapsto> \<lparr>t_price = 100, t_commissionRate = 20, t_isActive = True\<rparr>,
      3 \<mapsto> \<lparr>t_price = 100, t_commissionRate = - 5, t_isActive = True\<rparr>,
      4 \<mapsto> \<lparr>t_price = 100, t_commissionRate = 110, t_isActive = True\<rparr>]"

definition demo_order :: "object_id \<Rightarrow> object_id option \<Rightarrow> object_id list \<Rightarrow> TestOrder" where
  "demo_order i doctorRef testIds =
     \<lparr>o_id = i, o_orderId = ''BR001-ORD001'', o_patientId = ''BR001-PAT001'',
      o_referringDoctorId = doctorRef,
      o_tests = map (\<lambda>t. \<lparr>ot_testId = t, ot_price = 100\<rparr>) testIds,
      o_totalAmount = 100 * of_nat (length testIds), o_commissionAmount = 0,
      o_paymentMode = CASH, o_paymentStatus = PAID, o_branchId = ''BR001'', o_createdAt = 0\<rparr>"

definition demo_commission :: "object_id \<Rightarrow> object_id \<Rightarrow> rat \<Rightarrow> PaymentStatus \<Rightarrow> Commission" where
  "demo_commission i orderRef amount status =
     \<lparr>c_id = i, c_doctorId = 10, c_patientId = ''BR001-PAT001'', c_orderId = orderRef,
      c_commissionType = TEST_REFERRAL, c_amount = amount, c_percentage = 10,
      c_calculatedDate = 0, c_paymentStatus = status, c_paymentDate = None,
      c_branchId = ''BR001''\<rparr>"

definition demo_state :: state where
  "demo_state =
     \<lparr>orders =
        [demo_order 1 (Some 10) [1, 2, 3, 4],
         demo_order 2 (Some 11) [1],
         demo_order 3 (Some 10) [3, 4],
         demo_order 4 (Some 10) [1]],
      doctors = [10 \<mapsto> demo_doctor],
      tests = demo_tests,
      commissions = [demo_commission 1 4 10 PENDING],
      visits = [], expenses = [], logs = []\<rparr>"

definition demo_ledger :: state where
  "demo_ledger =
     demo_state\<lparr>commissions :=
       [demo_commission 1 4 10 PENDING, demo_commission 2 5 (25 / 2) PAID,
        demo_commission 3 6 7 PENDING]\<rparr>"

definition demo_transport :: transport where
  "demo_transport options = (m_amount options \<noteq> 7)"

definition failing_transport :: transport where
  "failing_transport options = False"

definition demo_collaborators :: Collaborators where
  "demo_collaborators =
     \<lparr>k_patientFound = True, k_visitFound = True, k_orderId = ''BR001-ORD005'', k_now = 40\<rparr>"

definition demo_request :: "object_id list \<Rightarrow> OrderRequest" where
  "demo_request testIds =
     \<lparr>rq_patientId = ''BR001-PAT001'', rq_visitId = 1, rq_referringDoctorId = 10,
      rq_tests = map (\<lambda>i. \<lparr>rq_testId = i, rq_testName = ''Test'',
                             rq_price = (if i = 1 then 0 else 250)\<rparr>) testIds,
      rq_paymentMode = CASH, rq_paymentStatus = PENDING, rq_branchId = None\<rparr>"

definition demo_created :: "object_id list \<Rightarrow> rat \<Rightarrow> rat \<Rightarrow> TestOrder" where
  "demo_created testIds orderTotal commission =
     \<lparr>o_id = 5, o_orderId = ''BR001-ORD005'', o_patientId = ''BR001-PAT001'',
      o_referringDoctorId = Some 10,
      o_tests = map (\<lambda>i. \<lparr>ot_testId = i, ot_price = (if i = 1 then 100 else 250)\<rparr>) testIds,
      o_totalAmount = orderTotal, o_commissionAmount = commission,
      o_paymentMode = CASH, o_paymentStatus = PENDING, o_branchId = ''BR001'', o_createdAt = 40\<rparr>"













section \<open>Facts about rounding\<close>

lemma half_floor: "\<lfloor>(1::rat) / 2\<rfloor> = 0" by (simp add: floor_eq_iff)

lemma round2_spec_nonneg:
  assumes "0 \<le> x"
  shows "round2_spec x = rat_of_int (Math_round (x * 100)) / 100"
proof (cases "x = 0")
  case True
  then show ?thesis by (simp add: round2_spec_def Math_round_def half_floor)
next
  case False
  with assms have "0 < x" by simp
  then show ?thesis by (simp add: round2_spec_def Math_round_def)
qed

lemma is_hundredthsI: "x * 100 = rat_of_int n \<Longrightarrow> is_hundredths x"
  unfolding is_hundredths_def by (simp only: floor_of_int)

lemma is_hundredthsD: "is_hundredths x \<Longrightarrow> x * 100 = rat_of_int \<lfloor>x * 100\<rfloor>"
  unfolding is_hundredths_def by (rule sym)

lemma calculateCommission_hundredths:
  "is_hundredths (CommissionHelper_calculateCommission amount rate)"
  by (rule is_hundredthsI [where n = "Math_round ((amount * rate / 100) * 100)"])
     (simp add: CommissionHelper_calculateCommission_def)

lemma calculateCommission_nonneg:
  assumes "0 \<le> amount" and "0 \<le> rate"
  shows "0 \<le> CommissionHelper_calculateCommission amount rate"
proof -
  have "0 \<le> amount * rate / 100 * 100 + 1 / 2" using assms by simp
  then have "0 \<le> Math_round (amount * rate / 100 * 100)"
    unfolding Math_round_def by (simp only: zero_le_floor of_int_0)
  then show ?thesis by (simp add: CommissionHelper_calculateCommission_def)
qed

lemma round_hundredths:
  assumes "is_hundredths x"
  shows "rat_of_int (Math_round (x * 100)) / 100 = x"
proof -
  have eq: "x * 100 = rat_of_int \<lfloor>x * 100\<rfloor>" using assms by (rule is_hundredthsD)
  have "Math_round (x * 100) = \<lfloor>rat_of_int \<lfloor>x * 100\<rfloor> + 1 / 2\<rfloor>"
    unfolding Math_round_def using eq by (simp only:)
  also have "\<dots> = \<lfloor>x * 100\<rfloor>" by (rule floor_unique) simp_all
  finally have "rat_of_int (Math_round (x * 100)) = x * 100" using eq by (simp only:)
  then show ?thesis by simp
qed

lemma is_hundredths_0: "is_hundredths 0"
  by (simp add: is_hundredths_def)

lemma is_hundredths_add:
  assumes "is_hundredths x" and "is_hundredths y"
  shows "is_hundredths (x + y)"
proof (rule is_hundredthsI)
  show "(x + y) * 100 = rat_of_int (\<lfloor>x * 100\<rfloor> + \<lfloor>y * 100\<rfloor>)"
    using is_hundredthsD [OF assms(1)] is_hundredthsD [OF assms(2)]
    by (simp only: of_int_add distrib_right)
qed

section \<open>The commission calculator\<close>



section \<open>Facts about the calculation of a commission\<close>

lemma qualifying_lines_Nil: "qualifying_lines T [] = []"
  by (simp add: qualifying_lines_def map_filter_simps)

lemma qualifying_lines_Cons:
  "qualifying_lines T (test # rest) =
     (case T (ot_testId test) of
        None \<Rightarrow> qualifying_lines T rest
      | Some testData \<Rightarrow>
          if 0 \<le> t_commissionRate testData \<and> t_commissionRate testData \<le> 100
          then (ot_price test, t_commissionRate testData) # qualifying_lines T rest
          else qualifying_lines T rest)"
  by (simp add: qualifying_lines_def map_filter_simps split: option.splits)

lemma commission_loop_totals:
  "commission_loop T lines acc =
     \<lparr>totalCommission = totalCommission acc
        + sum_list (map (\<lambda>(p, r). CommissionHelper_calculateCommission p r) (qualifying_lines T lines)),
      totalAmount = totalAmount acc + sum_list (map fst (qualifying_lines T lines)),
      commissionRateSum = commissionRateSum acc + sum_list (map snd (qualifying_lines T lines)),
      validTestsCount = validTestsCount acc + length (qualifying_lines T lines)\<rparr>"
proof (induction lines arbitrary: acc)
  case Nil
  show ?case by (simp add: qualifying_lines_Nil)
next
  case (Cons test rest)
  show ?case
    by (simp add: Cons.IH qualifying_lines_Cons split: option.splits)
qed

lemma qualifying_rates:
  "(p, r) \<in> set (qualifying_lines T lines) \<Longrightarrow> 0 \<le> r \<and> r \<le> 100"
  by (induction lines) (auto simp: qualifying_lines_Nil qualifying_lines_Cons split: option.splits if_splits)

lemma qualifying_prices:
  "(p, r) \<in> set (qualifying_lines T lines) \<Longrightarrow> \<exists>test \<in> set lines. ot_price test = p"
  by (induction lines) (auto simp: qualifying_lines_Nil qualifying_lines_Cons split: option.splits if_splits)

lemma sum_commissions_hundredths:
  "is_hundredths (sum_list (map (\<lambda>(p, r). CommissionHelper_calculateCommission p r) Q))"
  by (induction Q) (auto simp: is_hundredths_0 intro: is_hundredths_add calculateCommission_hundredths)

lemma sum_commissions_nonneg:
  "\<forall>(p, r) \<in> set Q. 0 \<le> p \<and> 0 \<le> r \<Longrightarrow>
   0 \<le> sum_list (map (\<lambda>(p, r). CommissionHelper_calculateCommission p r) Q)"
  by (induction Q) (auto intro: calculateCommission_nonneg add_nonneg_nonneg)

lemma sum_rates_bounds:
  fixes Q :: "(rat \<times> rat) list"
  shows "\<forall>(p, r) \<in> set Q. 0 \<le> r \<and> r \<le> 100 \<Longrightarrow>
   0 \<le> sum_list (map snd Q) \<and> sum_list (map snd Q) \<le> 100 * of_nat (length Q)"
  by (induction Q) (auto simp: algebra_simps)

lemma Math_round_bounds:
  assumes "0 \<le> x" and "x \<le> 100"
  shows "0 \<le> rat_of_int (Math_round (x * 100)) / 100 \<and> rat_of_int (Math_round (x * 100)) / 100 \<le> 100"
proof -
  have "0 \<le> x * 100 + 1 / 2" using assms by simp
  then have lo: "0 \<le> Math_round (x * 100)"
    unfolding Math_round_def by (simp only: zero_le_floor of_int_0)
  have "x * 100 + 1 / 2 < rat_of_int 10001" using assms by simp
  then have "Math_round (x * 100) < 10001"
    unfolding Math_round_def by (simp only: floor_less_iff)
  then have "Math_round (x * 100) \<le> 10000" by simp
  then have "rat_of_int (Math_round (x * 100)) \<le> 10000" by (metis of_int_le_iff of_int_numeral)
  with lo show ?thesis by simp
qed

lemma average_bounds:
  fixes Q :: "(rat \<times> rat) list"
  assumes "\<forall>(p, r) \<in> set Q. 0 \<le> r \<and> r \<le> 100" and "Q \<noteq> []"
  shows "0 \<le> sum_list (map snd Q) / of_nat (length Q) \<and> sum_list (map snd Q) / of_nat (length Q) \<le> 100"
proof -
  have n: "(0::rat) < of_nat (length Q)" using assms(2) by simp
  from sum_rates_bounds [OF assms(1)] n show ?thesis
    by (simp add: divide_le_eq)
qed

lemma new_commission_valid:
  assumes "\<forall>test \<in> set (o_tests order). 0 \<le> ot_price test"
  shows "Commission_validate (new_commission now s order doctorId)"
proof -
  let ?Q = "qualifying_lines (tests s) (o_tests order)"
  have rates: "\<forall>(p, r) \<in> set ?Q. 0 \<le> r \<and> r \<le> 100"
    using qualifying_rates by fastforce
  have "\<forall>(p, r) \<in> set ?Q. 0 \<le> p \<and> 0 \<le> r"
    using qualifying_rates qualifying_prices assms by fastforce
  then have a: "0 \<le> sum_list (map (\<lambda>(p, r). CommissionHelper_calculateCommission p r) ?Q)"
    by (rule sum_commissions_nonneg)
  have b: "?Q \<noteq> [] \<Longrightarrow> 0 \<le> round2_spec (sum_list (map snd ?Q) / of_nat (length ?Q))
       \<and> round2_spec (sum_list (map snd ?Q) / of_nat (length ?Q)) \<le> 100"
    using average_bounds [OF rates] Math_round_bounds round2_spec_nonneg by metis
  show ?thesis using a b
    by (simp add: Commission_validate_def new_commission_def Let_def)
qed

lemma calculateCommission_found:
  assumes "TestOrder_findById s orderId = Some order"
    and "populate_doctor s (o_referringDoctorId order) = Some (doctorId, doctor)"
    and "Commission_findOne_orderId s (o_id order) = None"
    and "\<forall>test \<in> set (o_tests order). 0 \<le> ot_price test"
  shows "CommissionService_calculateCommission now orderId s =
     (Success
        \<lparr>r_commission = new_commission now s order doctorId,
         r_orderId = o_orderId order,
         r_totalAmount = o_totalAmount order,
         r_commissionAmount = c_amount (new_commission now s order doctorId),
         r_doctorName = d_name doctor,
         r_doctorEmail = d_email doctor\<rparr>
        ''Commission calculated successfully'' 200,
      logger_info ''Commission calculated''
        (s\<lparr>commissions := commissions s @ [new_commission now s order doctorId]\<rparr>))"
proof -
  let ?Q = "qualifying_lines (tests s) (o_tests order)"
  let ?acc = "commission_loop (tests s) (o_tests order) totals0"
  have tc: "totalCommission ?acc = sum_list (map (\<lambda>(p, r). CommissionHelper_calculateCommission p r) ?Q)"
    by (simp add: commission_loop_totals totals0_def)
  have rs: "commissionRateSum ?acc = sum_list (map snd ?Q)"
    by (simp add: commission_loop_totals totals0_def)
  have n: "validTestsCount ?acc = length ?Q"
    by (simp add: commission_loop_totals totals0_def)
  have amount: "rat_of_int (Math_round (totalCommission ?acc * 100)) / 100
      = sum_list (map (\<lambda>(p, r). CommissionHelper_calculateCommission p r) ?Q)"
    unfolding tc by (rule round_hundredths) (rule sum_commissions_hundredths)
  have rates: "\<forall>(p, r) \<in> set ?Q. 0 \<le> r \<and> r \<le> 100"
    using qualifying_rates by fastforce
  have avg: "rat_of_int (Math_round ((if validTestsCount ?acc > 0
                then commissionRateSum ?acc / of_nat (validTestsCount ?acc) else 0) * 100)) / 100
      = (if ?Q = [] then 0 else round2_spec (sum_list (map snd ?Q) / of_nat (length ?Q)))"
  proof (cases "?Q = []")
    case True
    then show ?thesis unfolding rs n by (simp add: Math_round_def half_floor)
  next
    case False
    then have "0 \<le> sum_list (map snd ?Q) / of_nat (length ?Q)"
      using average_bounds [OF rates] by simp
    then show ?thesis unfolding rs n using False by (simp add: round2_spec_nonneg)
  qed
  have c: "\<lparr>c_id = fresh_id (commissions s),
            c_doctorId = doctorId,
            c_patientId = o_patientId order,
            c_orderId = o_id order,
            c_commissionType = TEST_REFERRAL,
            c_amount = rat_of_int (Math_round (totalCommission ?acc * 100)) / 100,
            c_percentage = rat_of_int (Math_round ((if validTestsCount ?acc > 0
                then commissionRateSum ?acc / of_nat (validTestsCount ?acc) else 0) * 100)) / 100,
            c_calculatedDate = now,
            c_paymentStatus = PENDING,
            c_paymentDate = None,
            c_branchId = o_branchId order\<rparr> = new_commission now s order doctorId"
    unfolding amount avg by (simp add: new_commission_def Let_def)
  have v: "Commission_validate (new_commission now s order doctorId)"
    using assms(4) by (rule new_commission_valid)
  have tc': "totalCommission ?acc = c_amount (new_commission now s order doctorId)"
    unfolding tc by (simp add: new_commission_def Let_def)
  show ?thesis
    unfolding CommissionService_calculateCommission_def
    apply (simp only: assms(1,2,3) option.case prod.case Let_def)
    apply (simp only: c)
    apply (simp only: Commission_insert_def v if_True sum.case tc' ResponseHelper_success_def)
    done
qed

lemma find_append_last:
  "find P (xs @ [x]) = (case find P xs of None \<Rightarrow> (if P x then Some x else None) | Some y \<Rightarrow> Some y)"
  by (induction xs) auto

lemma findById_o_id: "TestOrder_findById s i = Some order \<Longrightarrow> o_id order = i"
  by (auto simp: TestOrder_findById_def find_Some_iff)

lemma calculateCommission_twice:
  assumes "TestOrder_findById s orderId = Some order"
    and "populate_doctor s (o_referringDoctorId order) = Some (doctorId, doctor)"
    and "c_orderId c = o_id order"
    and "s' = logger_info msg (s\<lparr>commissions := commissions s @ [c]\<rparr>)"
  shows "CommissionService_calculateCommission now' orderId s' =
     (Failure ''Commission already calculated for this order'' 400, s')"
proof -
  have a: "TestOrder_findById s' orderId = Some order"
    using assms(1,4) by (simp add: TestOrder_findById_def logger_info_def)
  have b: "populate_doctor s' (o_referringDoctorId order) = Some (doctorId, doctor)"
    using assms(2,4) by (auto simp: populate_doctor_def logger_info_def split: option.splits)
  have "Commission_findOne_orderId s' (o_id order) \<noteq> None"
    using assms(3,4)
    by (simp add: Commission_findOne_orderId_def logger_info_def find_append_last split: option.splits)
  then obtain e where c: "Commission_findOne_orderId s' (o_id order) = Some e" by blast
  show ?thesis
    unfolding CommissionService_calculateCommission_def
    by (simp only: a b c option.case prod.case Let_def ResponseHelper_error_def)
qed

text \<open>
  C3. The calculation fails with status 404 when no order has the identifier, and with
  status 400 when the order has no referring doctor or a commission already refers to
  the order; otherwise (the prices of the order being non-negative, as its schema
  demands) it stores a new commission with status PENDING, and a second call on the
  same order is rejected with status 400.
\<close>

theorem calculateCommission_outcomes:
  "(TestOrder_findById s orderId = None \<longrightarrow>
      CommissionService_calculateCommission now orderId s = (Failure ''Order not found'' 404, s))
   \<and> (TestOrder_findById s orderId = Some order
        \<and> populate_doctor s (o_referringDoctorId order) = None \<longrightarrow>
      CommissionService_calculateCommission now orderId s =
        (Failure ''No referring doctor found for commission calculation'' 400, s))
   \<and> (TestOrder_findById s orderId = Some order
        \<and> populate_doctor s (o_referringDoctorId order) = Some doc
        \<and> Commission_findOne_orderId s orderId = Some existing \<longrightarrow>
      CommissionService_calculateCommission now orderId s =
        (Failure ''Commission already calculated for this order'' 400, s))
   \<and> (TestOrder_findById s orderId = Some order
        \<and> populate_doctor s (o_referringDoctorId order) = Some doc
        \<and> Commission_findOne_orderId s orderId = None
        \<and> (\<forall>test \<in> set (o_tests order). 0 \<le> ot_price test) \<longrightarrow>
      (\<exists>data s'.
          CommissionService_calculateCommission now orderId s =
            (Success data ''Commission calculated successfully'' 200, s')
          \<and> c_paymentStatus (r_commission data) = PENDING
          \<and> c_orderId (r_commission data) = orderId
          \<and> commissions s' = commissions s @ [r_commission data]
          \<and> CommissionService_calculateCommission now' orderId s' =
              (Failure ''Commission already calculated for this order'' 400, s')))"
proof (intro conjI impI)
  assume "TestOrder_findById s orderId = None"
  then show "CommissionService_calculateCommission now orderId s = (Failure ''Order not found'' 404, s)"
    by (simp add: CommissionService_calculateCommission_def ResponseHelper_error_def)
next
  assume "TestOrder_findById s orderId = Some order
        \<and> populate_doctor s (o_referringDoctorId order) = None"
  then show "CommissionService_calculateCommission now orderId s =
        (Failure ''No referring doctor found for commission calculation'' 400, s)"
    by (simp add: CommissionService_calculateCommission_def ResponseHelper_error_def)
next
  assume h: "TestOrder_findById s orderId = Some order
        \<and> populate_doctor s (o_referringDoctorId order) = Some doc
        \<and> Commission_findOne_orderId s orderId = Some existing"
  then have "o_id order = orderId" using findById_o_id by blast
  with h show "CommissionService_calculateCommission now orderId s =
        (Failure ''Commission already calculated for this order'' 400, s)"
    by (cases doc) (simp add: CommissionService_calculateCommission_def ResponseHelper_error_def)
next
  assume h: "TestOrder_findById s orderId = Some order
        \<and> populate_doctor s (o_referringDoctorId order) = Some doc
        \<and> Commission_findOne_orderId s orderId = None
        \<and> (\<forall>test \<in> set (o_tests order). 0 \<le> ot_price test)"
  obtain doctorId doctor where doc: "doc = (doctorId, doctor)" by (cases doc)
  have oid: "o_id order = orderId" using h findById_o_id by blast
  let ?c = "new_commission now s order doctorId"
  let ?s' = "logger_info ''Commission calculated'' (s\<lparr>commissions := commissions s @ [?c]\<rparr>)"
  have run: "CommissionService_calculateCommission now orderId s =
     (Success
        \<lparr>r_commission = ?c, r_orderId = o_orderId order, r_totalAmount = o_totalAmount order,
         r_commissionAmount = c_amount ?c, r_doctorName = d_name doctor,
         r_doctorEmail = d_email doctor\<rparr>
        ''Commission calculated successfully'' 200, ?s')"
    using h doc oid by (intro calculateCommission_found) simp_all
  have ref: "c_orderId ?c = o_id order" by (simp add: new_commission_def Let_def)
  have again: "CommissionService_calculateCommission now' orderId ?s' =
     (Failure ''Commission already calculated for this order'' 400, ?s')"
    using h doc ref by (intro calculateCommission_twice [where s = s]) simp_all
  have st: "c_paymentStatus ?c = PENDING" by (simp add: new_commission_def Let_def)
  have cs: "commissions ?s' = commissions s @ [?c]" by (simp add: logger_info_def)
  show "\<exists>data s'.
          CommissionService_calculateCommission now orderId s =
            (Success data ''Commission calculated successfully'' 200, s')
          \<and> c_paymentStatus (r_commission data) = PENDING
          \<and> c_orderId (r_commission data) = orderId
          \<and> commissions s' = commissions s @ [r_commission data]
          \<and> CommissionService_calculateCommission now' orderId s' =
              (Failure ''Commission already calculated for this order'' 400, s')"
    using run again st cs ref oid by simp
qed

theorem calculateCommission_outcomes_witness:
  "(TestOrder_findById demo_state 5 = None
    \<and> CommissionService_calculateCommission 7 5 demo_state = (Failure ''Order not found'' 404, demo_state))
   \<and> (TestOrder_findById demo_state 2 = Some (demo_order 2 (Some 11) [1])
    \<and> populate_doctor demo_state (o_referringDoctorId (demo_order 2 (Some 11) [1])) = None
    \<and> CommissionService_calculateCommission 7 2 demo_state =
        (Failure ''No referring doctor found for commission calculation'' 400, demo_state))
   \<and> (TestOrder_findById demo_state 4 = Some (demo_order 4 (Some 10) [1])
    \<and> populate_doctor demo_state (o_referringDoctorId (demo_order 4 (Some 10) [1])) = Some (10, demo_doctor)
    \<and> Commission_findOne_orderId demo_state 4 = Some (demo_commission 1 4 10 PENDING)
    \<and> CommissionService_calculateCommission 7 4 demo_state =
        (Failure ''Commission already calculated for this order'' 400, demo_state))
   \<and> (TestOrder_findById demo_state 1 = Some (demo_order 1 (Some 10) [1, 2, 3, 4])
    \<and> populate_doctor demo_state (o_referringDoctorId (demo_order 1 (Some 10) [1, 2, 3, 4])) = Some (10, demo_doctor)
    \<and> Commission_findOne_orderId demo_state 1 = None
    \<and> list_all (\<lambda>test. 0 \<le> ot_price test) (o_tests (demo_order 1 (Some 10) [1, 2, 3, 4]))
    \<and> (\<exists>data s'.
          CommissionService_calculateCommission 7 1 demo_state =
            (Success data ''Commission calculated successfully'' 200, s')
          \<and> c_paymentStatus (r_commission data) = PENDING
          \<and> c_orderId (r_commission data) = 1
          \<and> commissions s' = commissions demo_state @ [r_commission data]
          \<and> CommissionService_calculateCommission 8 1 s' =
              (Failure ''Commission already calculated for this order'' 400, s')))"
proof -
  have a: "TestOrder_findById demo_state 5 = None" by code_simp
  have b1: "TestOrder_findById demo_state 2 = Some (demo_order 2 (Some 11) [1])" by code_simp
  have b2: "populate_doctor demo_state (o_referringDoctorId (demo_order 2 (Some 11) [1])) = None"
    by code_simp
  have c1: "TestOrder_findById demo_state 4 = Some (demo_order 4 (Some 10) [1])" by code_simp
  have c2: "populate_doctor demo_state (o_referringDoctorId (demo_order 4 (Some 10) [1])) = Some (10, demo_doctor)"
    by code_simp
  have c3: "Commission_findOne_orderId demo_state 4 = Some (demo_commission 1 4 10 PENDING)"
    by code_simp
  have d1: "TestOrder_findById demo_state 1 = Some (demo_order 1 (Some 10) [1, 2, 3, 4])" by code_simp
  have d2: "populate_doctor demo_state (o_referringDoctorId (demo_order 1 (Some 10) [1, 2, 3, 4])) = Some (10, demo_doctor)"
    by code_simp
  have d3: "Commission_findOne_orderId demo_state 1 = None" by code_simp
  have d4: "\<forall>test \<in> set (o_tests (demo_order 1 (Some 10) [1, 2, 3, 4])). 0 \<le> ot_price test"
    by code_simp
  note t = calculateCommission_outcomes [where now = 7 and now' = 8]
  note A = t [THEN conjunct1, THEN mp, OF a]
  note B = t [THEN conjunct2, THEN conjunct1, THEN mp, OF conjI [OF b1 b2]]
  note C = t [THEN conjunct2, THEN conjunct2, THEN conjunct1, THEN mp,
      OF conjI [OF c1 conjI [OF c2 c3]]]
  note D = t [THEN conjunct2, THEN conjunct2, THEN conjunct2, THEN mp,
      OF conjI [OF d1 conjI [OF d2 conjI [OF d3 d4]]]]
  have d4': "list_all (\<lambda>test. 0 \<le> ot_price test) (o_tests (demo_order 1 (Some 10) [1, 2, 3, 4]))"
    using d4 by (simp only: list_all_iff)
  show ?thesis
    using a b1 b2 c1 c2 c3 d1 d2 d3 d4' A B C D by (intro conjI)
qed



section \<open>Facts about payment\<close>

lemma find_update:
  assumes "c_id c' = j"
  shows "find (\<lambda>x. c_id x = i) (map (\<lambda>d. if c_id d = j then c' else d) cs) =
     (if i = j then (case find (\<lambda>x. c_id x = i) cs of None \<Rightarrow> None | Some y \<Rightarrow> Some c')
      else find (\<lambda>x. c_id x = i) cs)"
  using assms by (induction cs) auto

lemma mark_paid_id [simp]: "c_id (mark_paid now c) = c_id c"
  by (simp add: mark_paid_def)

lemma mark_paid_status [simp]: "c_paymentStatus (mark_paid now c) = PAID"
  by (simp add: mark_paid_def)

lemma findById_update:
  "Commission_findById (Commission_update (mark_paid now c) s) i =
     (if i = c_id c
      then (case Commission_findById s i of None \<Rightarrow> None | Some y \<Rightarrow> Some (mark_paid now c))
      else Commission_findById s i)"
  by (simp add: Commission_findById_def Commission_update_def find_update)

lemma findById_logger [simp]:
  "Commission_findById (logger_info msg s) i = Commission_findById s i"
  "Commission_findById (logger_error msg s) i = Commission_findById s i"
  "Commission_findById (logger_warn msg s) i = Commission_findById s i"
  by (simp_all add: Commission_findById_def logger_info_def logger_error_def logger_warn_def)

lemma findById_notification [simp]:
  "Commission_findById (snd (sendCommissionNotification tr e n a p s)) i = Commission_findById s i"
  by (simp add: sendCommissionNotification_def sendEmail_def)

lemma is_paid_update: "is_paid s i \<Longrightarrow> is_paid (Commission_update (mark_paid now c) s) i"
  by (auto simp: is_paid_def findById_update split: option.splits)

lemma is_paid_logger [simp]:
  "is_paid (logger_info msg s) i = is_paid s i"
  "is_paid (logger_error msg s) i = is_paid s i"
  by (simp_all add: is_paid_def)

lemma is_paid_notification [simp]:
  "is_paid (snd (sendCommissionNotification tr e n a p s)) i = is_paid s i"
  by (simp add: is_paid_def)

lemma doctors_update [simp]: "doctors (Commission_update c s) = doctors s"
  by (simp add: Commission_update_def)

lemma doctors_logger [simp]:
  "doctors (logger_info msg s) = doctors s"
  "doctors (logger_error msg s) = doctors s"
  by (simp_all add: logger_info_def logger_error_def)

lemma doctors_notification [simp]:
  "doctors (snd (sendCommissionNotification tr e n a p s)) = doctors s"
  by (simp add: sendCommissionNotification_def sendEmail_def)

lemma is_paid_calculate:
  "is_paid s i \<Longrightarrow> is_paid (snd (CommissionService_calculateCommission now orderId s)) i"
  by (auto simp: CommissionService_calculateCommission_def Let_def Commission_insert_def is_paid_def
      Commission_findById_def logger_info_def logger_error_def find_append_last
      split: option.splits if_splits)

lemma is_paid_pay:
  "is_paid s i \<Longrightarrow> is_paid (snd (CommissionService_payCommission tr now commissionId paidBy s)) i"
  by (auto simp: CommissionService_payCommission_def Let_def is_paid_update case_prod_beta
      split: option.splits)

lemma is_paid_bulkPay_loop:
  "is_paid s i \<Longrightarrow> is_paid (snd (bulkPay_loop tr now cs results s)) i"
proof (induction cs arbitrary: results s)
  case Nil
  then show ?case by simp
next
  case (Cons c cs)
  show ?case
  proof (cases "doctors s (c_doctorId c)")
    case None
    then show ?thesis using Cons.prems by (simp add: Let_def is_paid_update)
  next
    case (Some doctor)
    let ?n = "sendCommissionNotification tr (d_email doctor) (d_name doctor)
                (c_amount (mark_paid now c)) (c_calculatedDate (mark_paid now c))
                (Commission_update (mark_paid now c) s)"
    have "is_paid (logger_info ''Commission paid'' (snd ?n)) i"
      using Cons.prems by (simp add: is_paid_update)
    from Cons.IH [OF this] show ?thesis
      using Some by (simp add: Let_def case_prod_beta)
  qed
qed

lemma is_paid_bulkPay:
  "is_paid s i \<Longrightarrow> is_paid (snd (CommissionService_bulkPayCommissions tr now ids paidBy s)) i"
proof -
  assume p: "is_paid s i"
  let ?found = "Commission_find_pending s ids"
  obtain r s' where l: "bulkPay_loop tr now ?found [] s = (r, s')" by (cases "bulkPay_loop tr now ?found [] s")
  have "is_paid s' i" using is_paid_bulkPay_loop [OF p, of tr now ?found "[]"] l by simp
  then show ?thesis using p l
    by (cases r) (simp_all add: CommissionService_bulkPayCommissions_def Let_def)
qed

lemma is_paid_step: "is_paid s i \<Longrightarrow> is_paid (step x s) i"
proof -
  assume p: "is_paid s i"
  obtain tr now op where x: "x = (tr, now, op)" by (cases x)
  show ?thesis unfolding x using p
    by (cases op) (simp_all add: is_paid_calculate is_paid_pay is_paid_bulkPay)
qed

lemma is_paid_run: "is_paid s i \<Longrightarrow> is_paid (run ops s) i"
  unfolding run_def by (induction ops arbitrary: s) (simp_all add: is_paid_step)

lemma payCommission_pending:
  assumes "Commission_findById s commissionId = Some c" and "c_paymentStatus c \<noteq> PAID"
  shows "Commission_findById (snd (CommissionService_payCommission tr now commissionId paidBy s))
           commissionId = Some (mark_paid now c)"
proof -
  have i: "c_id c = commissionId"
    using assms(1) by (auto simp: Commission_findById_def find_Some_iff)
  show ?thesis
    using assms i
    by (auto simp: CommissionService_payCommission_def Let_def findById_update case_prod_beta
        split: option.splits)
qed

lemma payCommission_response:
  assumes "Commission_findById s commissionId = Some c" and "c_paymentStatus c \<noteq> PAID"
    and "doctors s (c_doctorId c) = Some doctor"
  shows "fst (CommissionService_payCommission tr now commissionId paidBy s) =
     Success (mark_paid now c) ''Commission payment processed successfully'' 200"
  using assms
  by (simp add: CommissionService_payCommission_def Let_def case_prod_beta ResponseHelper_success_def)

text \<open>
  C6. Paying fails with status 404 when the commission does not exist and with status
  400 when it is already PAID; otherwise the stored record becomes PAID with the payment
  date set (and the answer is a success when the doctor of the record exists). No run
  of the operations on commissions takes a PAID commission out of the status PAID.
\<close>

theorem payCommission_outcomes:
  "(Commission_findById s commissionId = None \<longrightarrow>
      CommissionService_payCommission tr now commissionId paidBy s =
        (Failure ''Commission not found'' 404, s))
   \<and> (Commission_findById s commissionId = Some c \<and> c_paymentStatus c = PAID \<longrightarrow>
      CommissionService_payCommission tr now commissionId paidBy s =
        (Failure ''Commission already paid'' 400, s))
   \<and> (Commission_findById s commissionId = Some c \<and> c_paymentStatus c \<noteq> PAID \<longrightarrow>
      Commission_findById (snd (CommissionService_payCommission tr now commissionId paidBy s))
        commissionId = Some (c\<lparr>c_paymentStatus := PAID, c_paymentDate := Some now\<rparr>)
      \<and> (doctors s (c_doctorId c) \<noteq> None \<longrightarrow>
           fst (CommissionService_payCommission tr now commissionId paidBy s) =
             Success (c\<lparr>c_paymentStatus := PAID, c_paymentDate := Some now\<rparr>)
               ''Commission payment processed successfully'' 200))
   \<and> (is_paid s i \<longrightarrow> is_paid (run ops s) i)"
proof (intro conjI impI)
  assume "Commission_findById s commissionId = None"
  then show "CommissionService_payCommission tr now commissionId paidBy s =
        (Failure ''Commission not found'' 404, s)"
    by (simp add: CommissionService_payCommission_def ResponseHelper_error_def)
next
  assume "Commission_findById s commissionId = Some c \<and> c_paymentStatus c = PAID"
  then show "CommissionService_payCommission tr now commissionId paidBy s =
        (Failure ''Commission already paid'' 400, s)"
    by (simp add: CommissionService_payCommission_def ResponseHelper_error_def)
next
  assume "Commission_findById s commissionId = Some c \<and> c_paymentStatus c \<noteq> PAID"
  then show "Commission_findById (snd (CommissionService_payCommission tr now commissionId paidBy s))
        commissionId = Some (c\<lparr>c_paymentStatus := PAID, c_paymentDate := Some now\<rparr>)"
    using payCommission_pending [of s commissionId c tr now paidBy] by (simp add: mark_paid_def)
next
  assume "Commission_findById s commissionId = Some c \<and> c_paymentStatus c \<noteq> PAID"
    and "doctors s (c_doctorId c) \<noteq> None"
  then show "fst (CommissionService_payCommission tr now commissionId paidBy s) =
             Success (c\<lparr>c_paymentStatus := PAID, c_paymentDate := Some now\<rparr>)
               ''Commission payment processed successfully'' 200"
    using payCommission_response [of s commissionId c _ tr now paidBy] by (auto simp: mark_paid_def)
next
  assume "is_paid s i"
  then show "is_paid (run ops s) i" by (rule is_paid_run)
qed

theorem payCommission_outcomes_witness:
  "(Commission_findById demo_ledger 8 = None
     \<and> CommissionService_payCommission demo_transport 99 8 ''U1'' demo_ledger =
        (Failure ''Commission not found'' 404, demo_ledger))
   \<and> (Commission_findById demo_ledger 2 = Some (demo_commission 2 5 (25 / 2) PAID)
     \<and> c_paymentStatus (demo_commission 2 5 (25 / 2) PAID) = PAID
     \<and> CommissionService_payCommission demo_transport 99 2 ''U1'' demo_ledger =
        (Failure ''Commission already paid'' 400, demo_ledger))
   \<and> (Commission_findById demo_ledger 1 = Some (demo_commission 1 4 10 PENDING)
     \<and> c_paymentStatus (demo_commission 1 4 10 PENDING) \<noteq> PAID
     \<and> doctors demo_ledger (c_doctorId (demo_commission 1 4 10 PENDING)) \<noteq> None
     \<and> Commission_findById
          (snd (CommissionService_payCommission demo_transport 99 1 ''U1'' demo_ledger)) 1
        = Some ((demo_commission 1 4 10 PENDING)\<lparr>c_paymentStatus := PAID, c_paymentDate := Some 99\<rparr>)
     \<and> fst (CommissionService_payCommission demo_transport 99 1 ''U1'' demo_ledger) =
          Success ((demo_commission 1 4 10 PENDING)\<lparr>c_paymentStatus := PAID, c_paymentDate := Some 99\<rparr>)
            ''Commission payment processed successfully'' 200)
   \<and> (is_paid demo_ledger 2
     \<and> is_paid
          (run [(demo_transport, 50, CalculateCommission 1),
                (demo_transport, 60, PayCommission 2 ''U1''),
                (demo_transport, 70, BulkPayCommissions [1, 2, 3] ''U1'')] demo_ledger) 2)"
proof -
  have a: "Commission_findById demo_ledger 8 = None" by code_simp
  have b: "Commission_findById demo_ledger 2 = Some (demo_commission 2 5 (25 / 2) PAID)
      \<and> c_paymentStatus (demo_commission 2 5 (25 / 2) PAID) = PAID" by code_simp
  have c: "Commission_findById demo_ledger 1 = Some (demo_commission 1 4 10 PENDING)
      \<and> c_paymentStatus (demo_commission 1 4 10 PENDING) \<noteq> PAID" by code_simp
  have c': "doctors demo_ledger (c_doctorId (demo_commission 1 4 10 PENDING)) \<noteq> None"
    by code_simp
  have d: "is_paid demo_ledger 2" by code_simp
  note t = payCommission_outcomes [where s = demo_ledger and tr = demo_transport and now = 99
      and paidBy = "''U1''"]
  note A = t [THEN conjunct1, THEN mp, OF a]
  note B = t [THEN conjunct2, THEN conjunct1, THEN mp, OF b]
  note C = t [THEN conjunct2, THEN conjunct2, THEN conjunct1, THEN mp, OF c]
  note C1 = C [THEN conjunct1]
  note C2 = C [THEN conjunct2, THEN mp, OF c']
  note D = t [THEN conjunct2, THEN conjunct2, THEN conjunct2, THEN mp, OF d]
  show ?thesis
    using a b c c' d A B C1 C2 D by (intro conjI) blast+
qed

section \<open>Facts about bulk payment\<close>

lemma commissions_logger [simp]:
  "commissions (logger_info msg s) = commissions s"
  "commissions (logger_error msg s) = commissions s"
  by (simp_all add: logger_info_def logger_error_def)

lemma commissions_notification [simp]:
  "commissions (snd (sendCommissionNotification tr e n a p s)) = commissions s"
  by (simp add: sendCommissionNotification_def sendEmail_def)

lemma commissions_update [simp]:
  "commissions (Commission_update c s) = map (\<lambda>d. if c_id d = c_id c then c else d) (commissions s)"
  by (simp add: Commission_update_def)

lemma mark_paid_amount [simp]: "c_amount (mark_paid now c) = c_amount c"
  by (simp add: mark_paid_def)

lemma bulkPay_loop_ok:
  assumes "\<forall>c \<in> set cs. doctors s (c_doctorId c) \<noteq> None"
  shows "fst (bulkPay_loop tr now cs results s) = Some (results @ map (result_of s) cs)
     \<and> commissions (snd (bulkPay_loop tr now cs results s)) =
         fold (\<lambda>c cs'. map (\<lambda>d. if c_id d = c_id c then mark_paid now c else d) cs') cs (commissions s)
     \<and> doctors (snd (bulkPay_loop tr now cs results s)) = doctors s"
  using assms
proof (induction cs arbitrary: results s)
  case Nil
  show ?case by simp
next
  case (Cons c cs)
  from Cons.prems obtain doctor where d: "doctors s (c_doctorId c) = Some doctor" by auto
  let ?s1 = "Commission_update (mark_paid now c) s"
  let ?n = "sendCommissionNotification tr (d_email doctor) (d_name doctor)
              (c_amount (mark_paid now c)) (c_calculatedDate (mark_paid now c)) ?s1"
  let ?s3 = "logger_info ''Commission paid'' (snd ?n)"
  let ?r = "results @ [\<lparr>p_commissionId = c_id (mark_paid now c), p_doctorName = d_name doctor,
                        p_amount = c_amount (mark_paid now c), p_paid = True\<rparr>]"
  have unfold: "bulkPay_loop tr now (c # cs) results s = bulkPay_loop tr now cs ?r ?s3"
    using d by (simp add: Let_def case_prod_beta)
  have docs: "doctors ?s3 = doctors s" by simp
  have pre: "\<forall>c \<in> set cs. doctors ?s3 (c_doctorId c) \<noteq> None"
    using Cons.prems by (simp only: docs) simp
  have r: "?r = results @ [result_of s c]" using d by (simp add: result_of_def)
  have ro: "map (result_of ?s3) cs = map (result_of s) cs"
    by (simp add: result_of_def)
  from Cons.IH [OF pre, of ?r] show ?case
    unfolding unfold r ro by (simp only: docs) simp
qed

lemma fold_updates:
  assumes "distinct (map c_id cs0)" and "set fs \<subseteq> set cs0"
  shows "fold (\<lambda>c cs'. map (\<lambda>d. if c_id d = c_id c then mark_paid now c else d) cs') fs
           (map (\<lambda>c. if c \<in> D then mark_paid now c else c) cs0)
         = map (\<lambda>c. if c \<in> D \<union> set fs then mark_paid now c else c) cs0"
  using assms(2)
proof (induction fs arbitrary: D)
  case Nil
  show ?case by simp
next
  case (Cons f fs)
  have inj: "inj_on c_id (set cs0)" using assms(1) by (simp add: distinct_map)
  have f: "f \<in> set cs0" using Cons.prems by simp
  have one: "map (\<lambda>d. if c_id d = c_id f then mark_paid now f else d)
               (map (\<lambda>c. if c \<in> D then mark_paid now c else c) cs0)
           = map (\<lambda>c. if c \<in> insert f D then mark_paid now c else c) cs0"
  proof (simp only: map_map, rule map_cong [OF refl])
    fix c assume c: "c \<in> set cs0"
    have "(c_id c = c_id f) = (c = f)" using inj c f by (auto dest: inj_onD)
    then show "((\<lambda>d. if c_id d = c_id f then mark_paid now f else d) \<circ>
                (\<lambda>c. if c \<in> D then mark_paid now c else c)) c
             = (if c \<in> insert f D then mark_paid now c else c)"
      by auto
  qed
  have sub: "set fs \<subseteq> set cs0" using Cons.prems by simp
  have "fold (\<lambda>c cs'. map (\<lambda>d. if c_id d = c_id c then mark_paid now c else d) cs') (f # fs)
           (map (\<lambda>c. if c \<in> D then mark_paid now c else c) cs0)
      = fold (\<lambda>c cs'. map (\<lambda>d. if c_id d = c_id c then mark_paid now c else d) cs') fs
           (map (\<lambda>c. if c \<in> insert f D then mark_paid now c else c) cs0)"
    by (simp only: fold_simps o_apply one)
  also have "\<dots> = map (\<lambda>c. if c \<in> insert f D \<union> set fs then mark_paid now c else c) cs0"
    by (rule Cons.IH [OF sub])
  also have "\<dots> = map (\<lambda>c. if c \<in> D \<union> set (f # fs) then mark_paid now c else c) cs0"
    by simp
  finally show ?case .
qed

lemma fold_updates_filter:
  assumes "distinct (map c_id cs0)"
  shows "fold (\<lambda>c cs'. map (\<lambda>d. if c_id d = c_id c then mark_paid now c else d) cs')
           (filter P cs0) cs0
         = map (\<lambda>c. if P c then mark_paid now c else c) cs0"
proof -
  have "fold (\<lambda>c cs'. map (\<lambda>d. if c_id d = c_id c then mark_paid now c else d) cs')
           (filter P cs0) (map (\<lambda>c. if c \<in> {} then mark_paid now c else c) cs0)
      = map (\<lambda>c. if c \<in> {} \<union> set (filter P cs0) then mark_paid now c else c) cs0"
    using assms by (intro fold_updates) auto
  moreover have "map (\<lambda>c. if c \<in> {} \<union> set (filter P cs0) then mark_paid now c else c) cs0
      = map (\<lambda>c. if P c then mark_paid now c else c) cs0"
    by (rule map_cong) auto
  ultimately show ?thesis by simp
qed

lemma fold_sum_amounts:
  "fold (\<lambda>result sum. sum + p_amount result) results a = a + sum_list (map p_amount results)"
  by (induction results arbitrary: a) (simp_all add: add.assoc)

lemma result_of_amounts: "p_amount \<circ> result_of s = c_amount"
  by (rule ext) (simp add: result_of_def)

lemma result_of_ids: "p_commissionId \<circ> result_of s = c_id"
  by (rule ext) (simp add: result_of_def)

lemma bulkPayCommissions_ok:
  assumes "distinct (map c_id (commissions s))"
    and "\<forall>c \<in> set (commissions s). doctors s (c_doctorId c) \<noteq> None"
    and "filter (is_pending_of commissionIds) (commissions s) \<noteq> []"
  shows "fst (CommissionService_bulkPayCommissions tr now commissionIds paidBy s) =
      Success
        \<lparr>b_paidCommissions = length (filter (is_pending_of commissionIds) (commissions s)),
         b_totalAmount = sum_list (map c_amount (filter (is_pending_of commissionIds) (commissions s))),
         b_results = map (result_of s) (filter (is_pending_of commissionIds) (commissions s))\<rparr>
        ''commission payments processed successfully'' 200
    \<and> commissions (snd (CommissionService_bulkPayCommissions tr now commissionIds paidBy s)) =
        map (\<lambda>c. if is_pending_of commissionIds c then mark_paid now c else c) (commissions s)"
proof -
  let ?found = "filter (is_pending_of commissionIds) (commissions s)"
  have f: "Commission_find_pending s commissionIds = ?found"
    by (simp add: Commission_find_pending_def is_pending_of_def [abs_def])
  have "\<forall>c \<in> set ?found. doctors s (c_doctorId c) \<noteq> None" using assms(2) by simp
  note l = bulkPay_loop_ok [OF this, of tr now "[]"]
  obtain r s' where rs: "bulkPay_loop tr now ?found [] s = (r, s')"
    by (cases "bulkPay_loop tr now ?found [] s")
  have r: "r = Some (map (result_of s) ?found)" using l rs by simp
  have s': "commissions s' = map (\<lambda>c. if is_pending_of commissionIds c then mark_paid now c else c) (commissions s)"
    using l rs fold_updates_filter [OF assms(1)] by simp
  show ?thesis
    using assms(3) s'
    by (simp add: CommissionService_bulkPayCommissions_def f rs r Let_def ResponseHelper_success_def
        fold_sum_amounts result_of_amounts)
qed

lemma bulkPayCommissions_none:
  assumes "filter (is_pending_of commissionIds) (commissions s) = []"
  shows "CommissionService_bulkPayCommissions tr now commissionIds paidBy s =
           (Failure ''No pending commissions found'' 404, s)"
proof -
  have f: "Commission_find_pending s commissionIds = []"
    using assms by (simp add: Commission_find_pending_def is_pending_of_def [abs_def])
  show ?thesis
    by (simp add: CommissionService_bulkPayCommissions_def f ResponseHelper_error_def)
qed

section \<open>What payment leaves unchanged\<close>

lemma keys_logger [simp]:
  "keys (logger_info msg s) = keys s" "keys (logger_error msg s) = keys s"
  by (simp_all add: keys_def)

lemma keys_notification [simp]:
  "keys (snd (sendCommissionNotification tr e n a p s)) = keys s"
  by (simp add: keys_def)

lemma keys_update:
  assumes "\<forall>d \<in> set (commissions s). c_id d = c_id c \<longrightarrow>
             c_orderId d = c_orderId c \<and> c_doctorId d = c_doctorId c"
  shows "keys (Commission_update (mark_paid now c) s) = keys s"
  using assms by (auto simp: keys_def mark_paid_def)

lemma keys_consistent:
  assumes "keys s' = keys s"
    and "\<forall>d \<in> set (commissions s). c_id d = i \<longrightarrow> c_orderId d = a \<and> c_doctorId d = b"
  shows "\<forall>d \<in> set (commissions s'). c_id d = i \<longrightarrow> c_orderId d = a \<and> c_doctorId d = b"
proof -
  have "\<forall>k \<in> set (keys s). fst k = i \<longrightarrow> snd k = (a, b)"
    using assms(2) by (auto simp: keys_def)
  then have "\<forall>k \<in> set (keys s'). fst k = i \<longrightarrow> snd k = (a, b)"
    by (simp only: assms(1))
  then show ?thesis by (auto simp: keys_def)
qed

lemma keys_bulkPay_loop:
  assumes "\<forall>c \<in> set cs. \<forall>d \<in> set (commissions s). c_id d = c_id c \<longrightarrow>
             c_orderId d = c_orderId c \<and> c_doctorId d = c_doctorId c"
  shows "keys (snd (bulkPay_loop tr now cs results s)) = keys s"
  using assms
proof (induction cs arbitrary: results s)
  case Nil
  show ?case by simp
next
  case (Cons c cs)
  let ?s1 = "Commission_update (mark_paid now c) s"
  have k1: "keys ?s1 = keys s" using Cons.prems by (intro keys_update) simp
  show ?case
  proof (cases "doctors s (c_doctorId c)")
    case None
    then show ?thesis using k1 by (simp add: Let_def)
  next
    case (Some doctor)
    let ?n = "sendCommissionNotification tr (d_email doctor) (d_name doctor)
                (c_amount (mark_paid now c)) (c_calculatedDate (mark_paid now c)) ?s1"
    let ?s3 = "logger_info ''Commission paid'' (snd ?n)"
    have k3: "keys ?s3 = keys s" using k1 by simp
    have pre: "\<forall>c \<in> set cs. \<forall>d \<in> set (commissions ?s3). c_id d = c_id c \<longrightarrow>
             c_orderId d = c_orderId c \<and> c_doctorId d = c_doctorId c"
    proof
      fix c' assume "c' \<in> set cs"
      then have "\<forall>d \<in> set (commissions s). c_id d = c_id c' \<longrightarrow>
             c_orderId d = c_orderId c' \<and> c_doctorId d = c_doctorId c'"
        using Cons.prems by simp
      with k3 show "\<forall>d \<in> set (commissions ?s3). c_id d = c_id c' \<longrightarrow>
             c_orderId d = c_orderId c' \<and> c_doctorId d = c_doctorId c'"
        by (rule keys_consistent)
    qed
    have "keys (snd (bulkPay_loop tr now cs
            (results @ [\<lparr>p_commissionId = c_id (mark_paid now c), p_doctorName = d_name doctor,
                         p_amount = c_amount (mark_paid now c), p_paid = True\<rparr>]) ?s3)) = keys ?s3"
      by (rule Cons.IH [OF pre])
    then show ?thesis using Some k3 by (simp add: Let_def case_prod_beta)
  qed
qed

lemma distinct_ids_consistent:
  assumes "distinct (map c_id (commissions s))" and "c \<in> set (commissions s)"
  shows "\<forall>d \<in> set (commissions s). c_id d = c_id c \<longrightarrow>
             c_orderId d = c_orderId c \<and> c_doctorId d = c_doctorId c"
proof -
  have "inj_on c_id (set (commissions s))" using assms(1) by (simp add: distinct_map)
  then show ?thesis using assms(2) by (auto dest: inj_onD)
qed

lemma keys_payCommission:
  assumes "distinct (map c_id (commissions s))"
  shows "keys (snd (CommissionService_payCommission tr now commissionId paidBy s)) = keys s"
proof (cases "Commission_findById s commissionId")
  case None
  then show ?thesis by (simp add: CommissionService_payCommission_def)
next
  case (Some c)
  then have "c \<in> set (commissions s)"
    by (auto simp: Commission_findById_def find_Some_iff)
  then have "keys (Commission_update (mark_paid now c) s) = keys s"
    using assms by (intro keys_update distinct_ids_consistent)
  then show ?thesis using Some
    by (auto simp: CommissionService_payCommission_def Let_def case_prod_beta split: option.splits)
qed

lemma find_pending_consistent:
  assumes "distinct (map c_id (commissions s))"
  shows "\<forall>c \<in> set (Commission_find_pending s commissionIds).
           \<forall>d \<in> set (commissions s). c_id d = c_id c \<longrightarrow>
             c_orderId d = c_orderId c \<and> c_doctorId d = c_doctorId c"
proof
  fix c assume "c \<in> set (Commission_find_pending s commissionIds)"
  then have "c \<in> set (commissions s)" by (simp add: Commission_find_pending_def)
  with assms show "\<forall>d \<in> set (commissions s). c_id d = c_id c \<longrightarrow>
           c_orderId d = c_orderId c \<and> c_doctorId d = c_doctorId c"
    by (rule distinct_ids_consistent)
qed

lemma keys_bulkPayCommissions_loop:
  assumes "keys (snd (bulkPay_loop tr now (Commission_find_pending s commissionIds) [] s)) = keys s"
  shows "keys (snd (CommissionService_bulkPayCommissions tr now commissionIds paidBy s)) = keys s"
proof (cases "length (Commission_find_pending s commissionIds) = 0")
  case True
  then show ?thesis by (simp add: CommissionService_bulkPayCommissions_def)
next
  case False
  obtain r s' where rs: "bulkPay_loop tr now (Commission_find_pending s commissionIds) [] s = (r, s')"
    by (cases "bulkPay_loop tr now (Commission_find_pending s commissionIds) [] s")
  have k': "keys s' = keys s" using assms by (simp only: rs snd_conv)
  have "snd (CommissionService_bulkPayCommissions tr now commissionIds paidBy s) =
      (case r of None \<Rightarrow> logger_error ''Bulk pay commissions error:'' s' | Some results \<Rightarrow> s')"
    using False unfolding CommissionService_bulkPayCommissions_def Let_def rs
    by (cases r) simp_all
  then show ?thesis using k' by (cases r) simp_all
qed

lemma keys_bulkPayCommissions:
  assumes "distinct (map c_id (commissions s))"
  shows "keys (snd (CommissionService_bulkPayCommissions tr now commissionIds paidBy s)) = keys s"
  by (rule keys_bulkPayCommissions_loop, rule keys_bulkPay_loop, rule find_pending_consistent,
      rule assms)

lemma fold_max_init: "a \<le> fold max xs (a::nat)"
proof (induction xs arbitrary: a)
  case Nil
  show ?case by simp
next
  case (Cons x xs)
  have "max x a \<le> fold max xs (max x a)" by (rule Cons.IH)
  then show ?case by simp
qed

lemma fold_max_mem: "x \<in> set xs \<Longrightarrow> x \<le> fold max xs (a::nat)"
proof (induction xs arbitrary: a)
  case Nil
  then show ?case by simp
next
  case (Cons y ys)
  show ?case
  proof (cases "x = y")
    case True
    have "max y a \<le> fold max ys (max y a)" by (rule fold_max_init)
    then show ?thesis using True by simp
  next
    case False
    then have "x \<in> set ys" using Cons.prems by simp
    then have "x \<le> fold max ys (max y a)" by (rule Cons.IH)
    then show ?thesis by simp
  qed
qed

lemma fresh_id_fresh: "fresh_id cs \<notin> set (map c_id cs)"
proof
  assume "fresh_id cs \<in> set (map c_id cs)"
  then have "fresh_id cs \<le> fold max (map c_id cs) 0" by (rule fold_max_mem)
  then show False by (simp add: fresh_id_def)
qed

section \<open>Bulk payment\<close>

lemma map_unchanged:
  "filter P xs = [] \<Longrightarrow> map (\<lambda>c. if P c then f c else c) xs = xs"
  by (induction xs) (auto split: if_splits)

text \<open>
  C7. On a well-formed collection, bulk payment turns into PAID exactly the stored
  commissions whose identifier is among the given ones and whose status is PENDING, and
  leaves every other commission as it was; the result list, the count and the total
  amount cover exactly these commissions; the answer is the failure with status 404
  exactly when there is no such commission, and then nothing changes.
\<close>

theorem bulkPayCommissions_pays_pending_subset:
  "distinct (map c_id (commissions s))
     \<and> (\<forall>c \<in> set (commissions s). doctors s (c_doctorId c) \<noteq> None) \<longrightarrow>
   commissions (snd (CommissionService_bulkPayCommissions tr now commissionIds paidBy s)) =
       map (\<lambda>c. if is_pending_of commissionIds c
                 then c\<lparr>c_paymentStatus := PAID, c_paymentDate := Some now\<rparr> else c)
         (commissions s)
   \<and> (filter (is_pending_of commissionIds) (commissions s) \<noteq> [] \<longrightarrow>
        (\<exists>data message.
           fst (CommissionService_bulkPayCommissions tr now commissionIds paidBy s) =
             Success data message 200
           \<and> map p_commissionId (b_results data) =
               map c_id (filter (is_pending_of commissionIds) (commissions s))
           \<and> map p_amount (b_results data) =
               map c_amount (filter (is_pending_of commissionIds) (commissions s))
           \<and> b_paidCommissions data = length (filter (is_pending_of commissionIds) (commissions s))
           \<and> b_totalAmount data =
               sum_list (map c_amount (filter (is_pending_of commissionIds) (commissions s)))))
   \<and> ((fst (CommissionService_bulkPayCommissions tr now commissionIds paidBy s) =
          Failure ''No pending commissions found'' 404)
        = (filter (is_pending_of commissionIds) (commissions s) = []))
   \<and> (filter (is_pending_of commissionIds) (commissions s) = [] \<longrightarrow>
        snd (CommissionService_bulkPayCommissions tr now commissionIds paidBy s) = s)"
proof
  assume wf: "distinct (map c_id (commissions s))
     \<and> (\<forall>c \<in> set (commissions s). doctors s (c_doctorId c) \<noteq> None)"
  let ?P = "filter (is_pending_of commissionIds) (commissions s)"
  let ?B = "CommissionService_bulkPayCommissions tr now commissionIds paidBy s"
  let ?M = "map (\<lambda>c. if is_pending_of commissionIds c
                 then c\<lparr>c_paymentStatus := PAID, c_paymentDate := Some now\<rparr> else c)
         (commissions s)"
  have M: "?M = map (\<lambda>c. if is_pending_of commissionIds c then mark_paid now c else c) (commissions s)"
    by (simp add: mark_paid_def)
  show "commissions (snd ?B) = ?M
   \<and> (?P \<noteq> [] \<longrightarrow>
        (\<exists>data message. fst ?B = Success data message 200
           \<and> map p_commissionId (b_results data) = map c_id ?P
           \<and> map p_amount (b_results data) = map c_amount ?P
           \<and> b_paidCommissions data = length ?P
           \<and> b_totalAmount data = sum_list (map c_amount ?P)))
   \<and> ((fst ?B = Failure ''No pending commissions found'' 404) = (?P = []))
   \<and> (?P = [] \<longrightarrow> snd ?B = s)"
  proof (cases "?P = []")
    case True
    have b: "?B = (Failure ''No pending commissions found'' 404, s)"
      using True by (rule bulkPayCommissions_none)
    have "?M = commissions s" unfolding M using True by (rule map_unchanged)
    then show ?thesis using True b by simp
  next
    case False
    note ok = bulkPayCommissions_ok [OF conjunct1 [OF wf] conjunct2 [OF wf] False,
        of tr now paidBy]
    have c: "commissions (snd ?B) = ?M" unfolding M using ok by (rule conjunct2)
    have r: "fst ?B = Success
        \<lparr>b_paidCommissions = length ?P, b_totalAmount = sum_list (map c_amount ?P),
         b_results = map (result_of s) ?P\<rparr>
        ''commission payments processed successfully'' 200"
      using ok by (rule conjunct1)
    have ex: "\<exists>data message. fst ?B = Success data message 200
           \<and> map p_commissionId (b_results data) = map c_id ?P
           \<and> map p_amount (b_results data) = map c_amount ?P
           \<and> b_paidCommissions data = length ?P
           \<and> b_totalAmount data = sum_list (map c_amount ?P)"
      unfolding r by (simp add: result_of_amounts result_of_ids)
    have nf: "fst ?B \<noteq> Failure ''No pending commissions found'' 404"
      unfolding r by simp
    show ?thesis using False c ex nf by simp
  qed
qed

theorem bulkPayCommissions_pays_pending_subset_witness:
  "distinct (map c_id (commissions demo_ledger))
   \<and> list_all (\<lambda>c. doctors demo_ledger (c_doctorId c) \<noteq> None) (commissions demo_ledger)
   \<and> filter (is_pending_of [1, 2, 3, 8]) (commissions demo_ledger)
       = [demo_commission 1 4 10 PENDING, demo_commission 3 6 7 PENDING]
   \<and> (\<exists>data message.
         fst (CommissionService_bulkPayCommissions demo_transport 99 [1, 2, 3, 8] ''U1'' demo_ledger)
           = Success data message 200
         \<and> map p_commissionId (b_results data) = [1, 3]
         \<and> map p_amount (b_results data) = [10, 7]
         \<and> b_paidCommissions data = 2
         \<and> b_totalAmount data = 17)
   \<and> commissions
        (snd (CommissionService_bulkPayCommissions demo_transport 99 [1, 2, 3, 8] ''U1'' demo_ledger))
       = [(demo_commission 1 4 10 PENDING)\<lparr>c_paymentStatus := PAID, c_paymentDate := Some 99\<rparr>,
          demo_commission 2 5 (25 / 2) PAID,
          (demo_commission 3 6 7 PENDING)\<lparr>c_paymentStatus := PAID, c_paymentDate := Some 99\<rparr>]
   \<and> filter (is_pending_of [2, 8]) (commissions demo_ledger) = []
   \<and> fst (CommissionService_bulkPayCommissions demo_transport 99 [2, 8] ''U1'' demo_ledger)
       = Failure ''No pending commissions found'' 404
   \<and> snd (CommissionService_bulkPayCommissions demo_transport 99 [2, 8] ''U1'' demo_ledger)
       = demo_ledger"
proof -
  have cs: "commissions demo_ledger =
      [demo_commission 1 4 10 PENDING, demo_commission 2 5 (25 / 2) PAID,
       demo_commission 3 6 7 PENDING]"
    by (simp add: demo_ledger_def)
  have h1: "distinct (map c_id (commissions demo_ledger))" by code_simp
  have h2: "\<forall>c \<in> set (commissions demo_ledger). doctors demo_ledger (c_doctorId c) \<noteq> None"
    by code_simp
  have p: "filter (is_pending_of [1, 2, 3, 8]) (commissions demo_ledger)
       = [demo_commission 1 4 10 PENDING, demo_commission 3 6 7 PENDING]" by code_simp
  have q: "filter (is_pending_of [2, 8]) (commissions demo_ledger) = []" by code_simp
  have m: "map (\<lambda>c. if is_pending_of [1, 2, 3, 8] c
                 then c\<lparr>c_paymentStatus := PAID, c_paymentDate := Some 99\<rparr> else c)
         (commissions demo_ledger)
       = [(demo_commission 1 4 10 PENDING)\<lparr>c_paymentStatus := PAID, c_paymentDate := Some 99\<rparr>,
          demo_commission 2 5 (25 / 2) PAID,
          (demo_commission 3 6 7 PENDING)\<lparr>c_paymentStatus := PAID, c_paymentDate := Some 99\<rparr>]"
    by code_simp
  have ids: "map c_id [demo_commission 1 4 10 PENDING, demo_commission 3 6 7 PENDING] = [1, 3]"
    by code_simp
  have am: "map c_amount [demo_commission 1 4 10 PENDING, demo_commission 3 6 7 PENDING] = [10, 7]"
    by code_simp
  note A = bulkPayCommissions_pays_pending_subset [where s = demo_ledger and tr = demo_transport
      and now = 99 and paidBy = "''U1''" and commissionIds = "[1, 2, 3, 8]",
      THEN mp, OF conjI [OF h1 h2]]
  note B = bulkPayCommissions_pays_pending_subset [where s = demo_ledger and tr = demo_transport
      and now = 99 and paidBy = "''U1''" and commissionIds = "[2, 8]",
      THEN mp, OF conjI [OF h1 h2]]
  have A1: "commissions
        (snd (CommissionService_bulkPayCommissions demo_transport 99 [1, 2, 3, 8] ''U1'' demo_ledger))
       = [(demo_commission 1 4 10 PENDING)\<lparr>c_paymentStatus := PAID, c_paymentDate := Some 99\<rparr>,
          demo_commission 2 5 (25 / 2) PAID,
          (demo_commission 3 6 7 PENDING)\<lparr>c_paymentStatus := PAID, c_paymentDate := Some 99\<rparr>]"
    using A [THEN conjunct1] by (simp only: m)
  have A2: "\<exists>data message.
         fst (CommissionService_bulkPayCommissions demo_transport 99 [1, 2, 3, 8] ''U1'' demo_ledger)
           = Success data message 200
         \<and> map p_commissionId (b_results data) = [1, 3]
         \<and> map p_amount (b_results data) = [10, 7]
         \<and> b_paidCommissions data = 2
         \<and> b_totalAmount data = 17"
    using A [THEN conjunct2, THEN conjunct1] unfolding p ids am by (simp add: numeral_2_eq_2)
  have B1: "fst (CommissionService_bulkPayCommissions demo_transport 99 [2, 8] ''U1'' demo_ledger)
       = Failure ''No pending commissions found'' 404"
    using B [THEN conjunct2, THEN conjunct2, THEN conjunct1] q by simp
  have B2: "snd (CommissionService_bulkPayCommissions demo_transport 99 [2, 8] ''U1'' demo_ledger)
       = demo_ledger"
    using B [THEN conjunct2, THEN conjunct2, THEN conjunct2] q by simp
  have h2': "list_all (\<lambda>c. doctors demo_ledger (c_doctorId c) \<noteq> None) (commissions demo_ledger)"
    using h2 by (simp only: list_all_iff)
  show ?thesis
    using h1 h2' p q A1 A2 B1 B2 by (intro conjI)
qed

section \<open>Invariants of the commission collection\<close>

lemma keys_ids: "map c_id (commissions s) = map fst (keys s)"
  by (simp add: keys_def)


lemma keys_doctors: "map c_doctorId (commissions s) = map (\<lambda>k. snd (snd k)) (keys s)"
  by (simp add: keys_def)

lemma set_doctor_refs:
  "(\<forall>c \<in> set (commissions s). doctors s (c_doctorId c) \<noteq> None)
     = (\<forall>i \<in> set (map c_doctorId (commissions s)). doctors s i \<noteq> None)"
  by simp

lemma doctors_calculate [simp]:
  "doctors (snd (CommissionService_calculateCommission now orderId s)) = doctors s"
  by (simp add: CommissionService_calculateCommission_def Let_def Commission_insert_def
      logger_info_def logger_error_def split: option.splits)

lemma doctors_pay [simp]:
  "doctors (snd (CommissionService_payCommission tr now commissionId paidBy s)) = doctors s"
  by (simp add: CommissionService_payCommission_def Let_def case_prod_beta split: option.splits)

lemma doctors_bulkPay_loop [simp]:
  "doctors (snd (bulkPay_loop tr now cs results s)) = doctors s"
proof (induction cs arbitrary: results s)
  case Nil
  show ?case by simp
next
  case (Cons c cs)
  show ?case
    by (cases "doctors s (c_doctorId c)") (simp_all add: Let_def case_prod_beta Cons.IH)
qed

lemma doctors_bulkPay [simp]:
  "doctors (snd (CommissionService_bulkPayCommissions tr now commissionIds paidBy s)) = doctors s"
proof (cases "length (Commission_find_pending s commissionIds) = 0")
  case True
  then show ?thesis by (simp add: CommissionService_bulkPayCommissions_def)
next
  case False
  obtain r s' where rs: "bulkPay_loop tr now (Commission_find_pending s commissionIds) [] s = (r, s')"
    by (cases "bulkPay_loop tr now (Commission_find_pending s commissionIds) [] s")
  have d: "doctors s' = doctors s"
    using doctors_bulkPay_loop [of tr now "Commission_find_pending s commissionIds" "[]" s]
    by (simp only: rs snd_conv)
  have "snd (CommissionService_bulkPayCommissions tr now commissionIds paidBy s) =
      (case r of None \<Rightarrow> logger_error ''Bulk pay commissions error:'' s' | Some results \<Rightarrow> s')"
    using False unfolding CommissionService_bulkPayCommissions_def Let_def rs
    by (cases r) simp_all
  then show ?thesis using d by (cases r) simp_all
qed

text \<open>Each operation either leaves the keys as they are or appends one fresh commission.\<close>

lemma keys_calculate:
  "keys (snd (CommissionService_calculateCommission now orderId s)) = keys s
   \<or> (\<exists>i a b. keys (snd (CommissionService_calculateCommission now orderId s)) = keys s @ [(i, a, b)]
        \<and> i \<notin> set (map c_id (commissions s))
        \<and> a \<notin> set (map c_orderId (commissions s))
        \<and> doctors s b \<noteq> None)"
proof (cases "TestOrder_findById s orderId")
  case None
  then show ?thesis by (simp add: CommissionService_calculateCommission_def)
next
  case (Some order)
  show ?thesis
  proof (cases "populate_doctor s (o_referringDoctorId order)")
    case None
    then show ?thesis using Some by (simp add: CommissionService_calculateCommission_def)
  next
    case (Some doc)
    obtain doctorId doctor where doc: "doc = (doctorId, doctor)" by (cases doc)
    have dex: "doctors s doctorId \<noteq> None"
      using Some doc by (auto simp: populate_doctor_def split: option.splits)
    show ?thesis
    proof (cases "Commission_findOne_orderId s (o_id order)")
      case (Some existing)
      then show ?thesis
        using \<open>TestOrder_findById s orderId = Some order\<close>
          \<open>populate_doctor s (o_referringDoctorId order) = Some doc\<close> doc
        by (simp add: CommissionService_calculateCommission_def Let_def)
    next
      case None
      then have nin: "o_id order \<notin> set (map c_orderId (commissions s))"
        by (auto simp: Commission_findOne_orderId_def find_None_iff)
      have fr: "fresh_id (commissions s) \<notin> set (map c_id (commissions s))"
        by (rule fresh_id_fresh)
      show ?thesis
        using \<open>TestOrder_findById s orderId = Some order\<close>
          \<open>populate_doctor s (o_referringDoctorId order) = Some doc\<close> doc None nin fr dex
        by (simp add: CommissionService_calculateCommission_def Let_def Commission_insert_def
            keys_def logger_info_def logger_error_def)
    qed
  qed
qed

lemma keys_step:
  assumes "distinct (map c_id (commissions s))"
  shows "keys (step x s) = keys s
   \<or> (\<exists>i a b. keys (step x s) = keys s @ [(i, a, b)]
        \<and> i \<notin> set (map c_id (commissions s))
        \<and> a \<notin> set (map c_orderId (commissions s))
        \<and> doctors s b \<noteq> None)"
proof -
  obtain tr now op where x: "x = (tr, now, op)" by (cases x)
  show ?thesis
  proof (cases op)
    case (CalculateCommission orderId)
    then show ?thesis unfolding x using keys_calculate [of now orderId s] by simp
  next
    case (PayCommission commissionId paidBy)
    then show ?thesis unfolding x using keys_payCommission [OF assms] by simp
  next
    case (BulkPayCommissions commissionIds paidBy)
    then show ?thesis unfolding x using keys_bulkPayCommissions [OF assms] by simp
  qed
qed

lemma doctors_step [simp]: "doctors (step x s) = doctors s"
proof -
  obtain tr now op where x: "x = (tr, now, op)" by (cases x)
  show ?thesis unfolding x by (cases op) simp_all
qed



lemma ledger_wf_step:
  assumes "ledger_wf s"
  shows "ledger_wf (step x s)"
proof -
  have d: "distinct (map c_id (commissions s))"
    and r: "\<forall>i \<in> set (map c_doctorId (commissions s)). doctors s i \<noteq> None"
    using assms by (simp_all add: ledger_wf_def)
  from keys_step [OF d, of x] show ?thesis
  proof
    assume "keys (step x s) = keys s"
    then have "map c_id (commissions (step x s)) = map c_id (commissions s)"
      and "map c_doctorId (commissions (step x s)) = map c_doctorId (commissions s)"
      by (simp_all add: keys_ids keys_doctors)
    then show ?thesis using d r unfolding ledger_wf_def set_doctor_refs by (simp only: doctors_step)
  next
    assume "\<exists>i a b. keys (step x s) = keys s @ [(i, a, b)]
        \<and> i \<notin> set (map c_id (commissions s))
        \<and> a \<notin> set (map c_orderId (commissions s))
        \<and> doctors s b \<noteq> None"
    then obtain i a b where k: "keys (step x s) = keys s @ [(i, a, b)]"
      and i: "i \<notin> set (map c_id (commissions s))"
      and b: "doctors s b \<noteq> None" by blast
    have "map c_id (commissions (step x s)) = map c_id (commissions s) @ [i]"
      by (simp add: keys_ids k)
    moreover have "map c_doctorId (commissions (step x s)) = map c_doctorId (commissions s) @ [b]"
      by (simp add: keys_doctors k)
    ultimately show ?thesis using d r i b unfolding ledger_wf_def set_doctor_refs
      by (simp only: doctors_step) auto
  qed
qed

lemma ledger_wf_run: "ledger_wf s \<Longrightarrow> ledger_wf (run ops s)"
  unfolding run_def by (induction ops arbitrary: s) (simp_all add: ledger_wf_step)

lemma ledger_wf_empty: "commissions s = [] \<Longrightarrow> ledger_wf s"
  by (simp add: ledger_wf_def)




section \<open>Failure of the notification\<close>

lemma payCommission_transport_independent:
  "fst (CommissionService_payCommission tr now commissionId paidBy s)
     = fst (CommissionService_payCommission tr' now commissionId paidBy s)
   \<and> commissions (snd (CommissionService_payCommission tr now commissionId paidBy s))
     = commissions (snd (CommissionService_payCommission tr' now commissionId paidBy s))"
  by (simp add: CommissionService_payCommission_def Let_def case_prod_beta split: option.splits)

lemma bulkPay_loop_transport_independent:
  assumes "commissions s = commissions t" and "doctors s = doctors t"
  shows "fst (bulkPay_loop tr now cs results s) = fst (bulkPay_loop tr' now cs results t)
     \<and> commissions (snd (bulkPay_loop tr now cs results s))
        = commissions (snd (bulkPay_loop tr' now cs results t))"
  using assms
proof (induction cs arbitrary: results s t)
  case Nil
  then show ?case by simp
next
  case (Cons c cs)
  show ?case
  proof (cases "doctors t (c_doctorId c)")
    case None
    then show ?thesis using Cons.prems by (simp add: Let_def)
  next
    case (Some doctor)
    let ?s3 = "logger_info ''Commission paid''
        (snd (sendCommissionNotification tr (d_email doctor) (d_name doctor)
           (c_amount (mark_paid now c)) (c_calculatedDate (mark_paid now c))
           (Commission_update (mark_paid now c) s)))"
    let ?t3 = "logger_info ''Commission paid''
        (snd (sendCommissionNotification tr' (d_email doctor) (d_name doctor)
           (c_amount (mark_paid now c)) (c_calculatedDate (mark_paid now c))
           (Commission_update (mark_paid now c) t)))"
    have a: "commissions ?s3 = commissions ?t3" using Cons.prems by simp
    have b: "doctors ?s3 = doctors ?t3" using Cons.prems by simp
    from Cons.IH [OF a b] show ?thesis
      using Some Cons.prems by (simp add: Let_def case_prod_beta)
  qed
qed

lemma bulkPayCommissions_transport_independent:
  "fst (CommissionService_bulkPayCommissions tr now commissionIds paidBy s)
     = fst (CommissionService_bulkPayCommissions tr' now commissionIds paidBy s)
   \<and> commissions (snd (CommissionService_bulkPayCommissions tr now commissionIds paidBy s))
     = commissions (snd (CommissionService_bulkPayCommissions tr' now commissionIds paidBy s))"
proof (cases "length (Commission_find_pending s commissionIds) = 0")
  case True
  then show ?thesis by (simp add: CommissionService_bulkPayCommissions_def)
next
  case False
  obtain r s' where rs: "bulkPay_loop tr now (Commission_find_pending s commissionIds) [] s = (r, s')"
    by (cases "bulkPay_loop tr now (Commission_find_pending s commissionIds) [] s")
  obtain r' t' where rt: "bulkPay_loop tr' now (Commission_find_pending s commissionIds) [] s = (r', t')"
    by (cases "bulkPay_loop tr' now (Commission_find_pending s commissionIds) [] s")
  have "fst (r, s') = fst (r', t') \<and> commissions (snd (r, s')) = commissions (snd (r', t'))"
    using bulkPay_loop_transport_independent [OF refl refl,
        of tr now "Commission_find_pending s commissionIds" "[]" s tr']
    by (simp only: rs rt)
  then have eq: "r = r'" "commissions s' = commissions t'" by simp_all
  have a: "CommissionService_bulkPayCommissions tr now commissionIds paidBy s =
      (case r of
         None \<Rightarrow> (ResponseHelper_error ''Failed to process bulk commission payments'' None,
                  logger_error ''Bulk pay commissions error:'' s')
       | Some results \<Rightarrow>
           (ResponseHelper_success
              \<lparr>b_paidCommissions = length results,
               b_totalAmount = fold (\<lambda>result sum. sum + p_amount result) results 0,
               b_results = results\<rparr>
              ''commission payments processed successfully'', s'))"
    using False unfolding CommissionService_bulkPayCommissions_def Let_def rs
    by (cases r) simp_all
  have b: "CommissionService_bulkPayCommissions tr' now commissionIds paidBy s =
      (case r' of
         None \<Rightarrow> (ResponseHelper_error ''Failed to process bulk commission payments'' None,
                  logger_error ''Bulk pay commissions error:'' t')
       | Some results \<Rightarrow>
           (ResponseHelper_success
              \<lparr>b_paidCommissions = length results,
               b_totalAmount = fold (\<lambda>result sum. sum + p_amount result) results 0,
               b_results = results\<rparr>
              ''commission payments processed successfully'', t'))"
    using False unfolding CommissionService_bulkPayCommissions_def Let_def rt
    by (cases r') simp_all
  show ?thesis unfolding a b using eq by (cases r') simp_all
qed

lemma logs_mono_loop:
  "set (logs s) \<subseteq> set (logs (snd (bulkPay_loop tr now cs results s)))"
proof (induction cs arbitrary: results s)
  case Nil
  show ?case by simp
next
  case (Cons c cs)
  show ?case
  proof (cases "doctors s (c_doctorId c)")
    case None
    then show ?thesis by (simp add: Let_def Commission_update_def)
  next
    case (Some doctor)
    let ?s3 = "logger_info ''Commission paid''
        (snd (sendCommissionNotification tr (d_email doctor) (d_name doctor)
           (c_amount (mark_paid now c)) (c_calculatedDate (mark_paid now c))
           (Commission_update (mark_paid now c) s)))"
    have "set (logs s) \<subseteq> set (logs ?s3)"
      by (auto simp: logger_info_def logger_error_def sendCommissionNotification_def sendEmail_def
          Commission_update_def)
    also have "\<dots> \<subseteq> set (logs (snd (bulkPay_loop tr now cs
        (results @ [\<lparr>p_commissionId = c_id (mark_paid now c), p_doctorName = d_name doctor,
                     p_amount = c_amount (mark_paid now c), p_paid = True\<rparr>]) ?s3)))"
      by (rule Cons.IH)
    finally show ?thesis using Some by (simp add: Let_def case_prod_beta)
  qed
qed

lemma logs_failed_loop:
  assumes "cs \<noteq> []" and "\<forall>c \<in> set cs. doctors s (c_doctorId c) \<noteq> None" and "\<forall>m. \<not> tr m"
  shows "(ERROR, ''Email sending failed:'') \<in> set (logs (snd (bulkPay_loop tr now cs results s)))"
proof -
  obtain c rest where cs: "cs = c # rest" using assms(1) by (cases cs) auto
  obtain doctor where d: "doctors s (c_doctorId c) = Some doctor" using assms(2) cs by auto
  let ?s3 = "logger_info ''Commission paid''
        (snd (sendCommissionNotification tr (d_email doctor) (d_name doctor)
           (c_amount (mark_paid now c)) (c_calculatedDate (mark_paid now c))
           (Commission_update (mark_paid now c) s)))"
  have "(ERROR, ''Email sending failed:'') \<in> set (logs ?s3)"
    using assms(3)
    by (simp add: logger_info_def logger_error_def sendCommissionNotification_def sendEmail_def)
  moreover have "set (logs ?s3) \<subseteq> set (logs (snd (bulkPay_loop tr now rest
        (results @ [\<lparr>p_commissionId = c_id (mark_paid now c), p_doctorName = d_name doctor,
                     p_amount = c_amount (mark_paid now c), p_paid = True\<rparr>]) ?s3)))"
    by (rule logs_mono_loop)
  ultimately show ?thesis unfolding cs using d by (auto simp: Let_def case_prod_beta)
qed

lemma find_map_id:
  assumes "\<And>x. c_id (g x) = c_id x"
  shows "find (\<lambda>x. c_id x = i) (map g cs) = map_option g (find (\<lambda>x. c_id x = i) cs)"
  by (induction cs) (simp_all add: assms)

lemma find_distinct_id:
  assumes "distinct (map c_id cs)" and "c \<in> set cs"
  shows "find (\<lambda>x. c_id x = c_id c) cs = Some c"
  using assms by (induction cs) (auto simp: image_iff)

lemma bulkPayCommissions_snd_ok:
  assumes "Commission_find_pending s commissionIds \<noteq> []"
    and "\<forall>c \<in> set (commissions s). doctors s (c_doctorId c) \<noteq> None"
  shows "snd (CommissionService_bulkPayCommissions tr now commissionIds paidBy s)
     = snd (bulkPay_loop tr now (Commission_find_pending s commissionIds) [] s)"
proof -
  let ?found = "Commission_find_pending s commissionIds"
  have "\<forall>c \<in> set ?found. doctors s (c_doctorId c) \<noteq> None"
    using assms(2) by (simp add: Commission_find_pending_def)
  note l = bulkPay_loop_ok [OF this, of tr now "[]"]
  obtain r s' where rs: "bulkPay_loop tr now ?found [] s = (r, s')"
    by (cases "bulkPay_loop tr now ?found [] s")
  have r: "r = Some (map (result_of s) ?found)" using l rs by simp
  show ?thesis
    using assms(1) unfolding CommissionService_bulkPayCommissions_def Let_def rs r by simp
qed

lemma bulkPayCommissions_paid:
  assumes "ledger_wf s" and "c \<in> set (Commission_find_pending s commissionIds)"
  shows "is_paid (snd (CommissionService_bulkPayCommissions tr now commissionIds paidBy s)) (c_id c)"
proof -
  have d: "distinct (map c_id (commissions s))"
    and r: "\<forall>c \<in> set (commissions s). doctors s (c_doctorId c) \<noteq> None"
    using assms(1) by (simp_all add: ledger_wf_def)
  have p: "is_pending_of commissionIds c" and m: "c \<in> set (commissions s)"
    using assms(2) by (simp_all add: Commission_find_pending_def is_pending_of_def)
  then have ne: "filter (is_pending_of commissionIds) (commissions s) \<noteq> []"
    by (auto simp: filter_empty_conv)
  let ?g = "\<lambda>c. if is_pending_of commissionIds c then mark_paid now c else c"
  have cs: "commissions (snd (CommissionService_bulkPayCommissions tr now commissionIds paidBy s))
      = map ?g (commissions s)"
    using bulkPayCommissions_ok [OF d r ne, of tr now paidBy] by (rule conjunct2)
  have "find (\<lambda>x. c_id x = c_id c) (map ?g (commissions s))
      = map_option ?g (find (\<lambda>x. c_id x = c_id c) (commissions s))"
    by (rule find_map_id) simp
  also have "\<dots> = Some (mark_paid now c)"
    using find_distinct_id [OF d m] p by simp
  finally show ?thesis
    by (simp add: is_paid_def Commission_findById_def cs)
qed

text \<open>
  C8. The outcome and the stored commissions of paying and of bulk paying do not depend
  on what the transport does; when the transport fails, the failure is logged as an
  error, the answer is still the success, and the commissions are still PAID.
\<close>

theorem notification_failure_is_swallowed:
  "fst (CommissionService_payCommission tr now commissionId paidBy s)
     = fst (CommissionService_payCommission tr' now commissionId paidBy s)
   \<and> commissions (snd (CommissionService_payCommission tr now commissionId paidBy s))
     = commissions (snd (CommissionService_payCommission tr' now commissionId paidBy s))
   \<and> fst (CommissionService_bulkPayCommissions tr now commissionIds paidBy s)
     = fst (CommissionService_bulkPayCommissions tr' now commissionIds paidBy s)
   \<and> commissions (snd (CommissionService_bulkPayCommissions tr now commissionIds paidBy s))
     = commissions (snd (CommissionService_bulkPayCommissions tr' now commissionIds paidBy s))
   \<and> (Commission_findById s commissionId = Some c \<and> c_paymentStatus c \<noteq> PAID
        \<and> doctors s (c_doctorId c) = Some doctor \<and> (\<forall>m. \<not> tr m) \<longrightarrow>
       fst (CommissionService_payCommission tr now commissionId paidBy s)
         = Success (c\<lparr>c_paymentStatus := PAID, c_paymentDate := Some now\<rparr>)
             ''Commission payment processed successfully'' 200
       \<and> is_paid (snd (CommissionService_payCommission tr now commissionId paidBy s)) commissionId
       \<and> (ERROR, ''Email sending failed:'')
            \<in> set (logs (snd (CommissionService_payCommission tr now commissionId paidBy s))))
   \<and> (ledger_wf s \<and> Commission_find_pending s commissionIds \<noteq> [] \<and> (\<forall>m. \<not> tr m) \<longrightarrow>
       (\<exists>data message.
          fst (CommissionService_bulkPayCommissions tr now commissionIds paidBy s)
            = Success data message 200)
       \<and> (\<forall>c \<in> set (Commission_find_pending s commissionIds).
            is_paid (snd (CommissionService_bulkPayCommissions tr now commissionIds paidBy s)) (c_id c))
       \<and> (ERROR, ''Email sending failed:'')
            \<in> set (logs (snd (CommissionService_bulkPayCommissions tr now commissionIds paidBy s))))"
proof (intro conjI impI)
  show "fst (CommissionService_payCommission tr now commissionId paidBy s)
     = fst (CommissionService_payCommission tr' now commissionId paidBy s)"
    using payCommission_transport_independent by (rule conjunct1)
  show "commissions (snd (CommissionService_payCommission tr now commissionId paidBy s))
     = commissions (snd (CommissionService_payCommission tr' now commissionId paidBy s))"
    using payCommission_transport_independent by (rule conjunct2)
  show "fst (CommissionService_bulkPayCommissions tr now commissionIds paidBy s)
     = fst (CommissionService_bulkPayCommissions tr' now commissionIds paidBy s)"
    using bulkPayCommissions_transport_independent by (rule conjunct1)
  show "commissions (snd (CommissionService_bulkPayCommissions tr now commissionIds paidBy s))
     = commissions (snd (CommissionService_bulkPayCommissions tr' now commissionIds paidBy s))"
    using bulkPayCommissions_transport_independent by (rule conjunct2)
next
  assume h: "Commission_findById s commissionId = Some c \<and> c_paymentStatus c \<noteq> PAID
        \<and> doctors s (c_doctorId c) = Some doctor \<and> (\<forall>m. \<not> tr m)"
  show "fst (CommissionService_payCommission tr now commissionId paidBy s)
         = Success (c\<lparr>c_paymentStatus := PAID, c_paymentDate := Some now\<rparr>)
             ''Commission payment processed successfully'' 200"
    using h payCommission_response [of s commissionId c doctor tr now paidBy]
    by (simp add: mark_paid_def)
  show "is_paid (snd (CommissionService_payCommission tr now commissionId paidBy s)) commissionId"
    using h payCommission_pending [of s commissionId c tr now paidBy]
    by (simp add: is_paid_def)
  show "(ERROR, ''Email sending failed:'')
            \<in> set (logs (snd (CommissionService_payCommission tr now commissionId paidBy s)))"
    using h
    by (simp add: CommissionService_payCommission_def Let_def case_prod_beta
        sendCommissionNotification_def sendEmail_def logger_info_def logger_error_def)
next
  assume h: "ledger_wf s \<and> Commission_find_pending s commissionIds \<noteq> [] \<and> (\<forall>m. \<not> tr m)"
  have d: "distinct (map c_id (commissions s))"
    and r: "\<forall>c \<in> set (commissions s). doctors s (c_doctorId c) \<noteq> None"
    using h by (simp_all add: ledger_wf_def)
  have f: "Commission_find_pending s commissionIds
      = filter (is_pending_of commissionIds) (commissions s)"
    by (simp add: Commission_find_pending_def is_pending_of_def [abs_def])
  have ne: "filter (is_pending_of commissionIds) (commissions s) \<noteq> []" using h f by simp
  show "\<exists>data message.
          fst (CommissionService_bulkPayCommissions tr now commissionIds paidBy s)
            = Success data message 200"
    using bulkPayCommissions_ok [OF d r ne, of tr now paidBy] by blast
  show "\<forall>c \<in> set (Commission_find_pending s commissionIds).
            is_paid (snd (CommissionService_bulkPayCommissions tr now commissionIds paidBy s)) (c_id c)"
    using h bulkPayCommissions_paid by blast
  have fd: "\<forall>c \<in> set (Commission_find_pending s commissionIds). doctors s (c_doctorId c) \<noteq> None"
    using r by (simp add: Commission_find_pending_def)
  have hne: "Commission_find_pending s commissionIds \<noteq> []" using h by simp
  have "(ERROR, ''Email sending failed:'')
      \<in> set (logs (snd (bulkPay_loop tr now (Commission_find_pending s commissionIds) [] s)))"
    using h fd by (intro logs_failed_loop) simp_all
  then show "(ERROR, ''Email sending failed:'')
            \<in> set (logs (snd (CommissionService_bulkPayCommissions tr now commissionIds paidBy s)))"
    by (simp only: bulkPayCommissions_snd_ok [OF hne r])
qed

theorem notification_failure_is_swallowed_witness:
  "Commission_findById demo_ledger 1 = Some (demo_commission 1 4 10 PENDING)
   \<and> c_paymentStatus (demo_commission 1 4 10 PENDING) \<noteq> PAID
   \<and> doctors demo_ledger (c_doctorId (demo_commission 1 4 10 PENDING)) = Some demo_doctor
   \<and> (\<forall>m. \<not> failing_transport m)
   \<and> fst (CommissionService_payCommission failing_transport 99 1 ''U1'' demo_ledger)
       = fst (CommissionService_payCommission demo_transport 99 1 ''U1'' demo_ledger)
   \<and> fst (CommissionService_payCommission failing_transport 99 1 ''U1'' demo_ledger)
       = Success ((demo_commission 1 4 10 PENDING)\<lparr>c_paymentStatus := PAID, c_paymentDate := Some 99\<rparr>)
           ''Commission payment processed successfully'' 200
   \<and> is_paid (snd (CommissionService_payCommission failing_transport 99 1 ''U1'' demo_ledger)) 1
   \<and> (ERROR, ''Email sending failed:'')
        \<in> set (logs (snd (CommissionService_payCommission failing_transport 99 1 ''U1'' demo_ledger)))
   \<and> ledger_wf demo_ledger
   \<and> Commission_find_pending demo_ledger [1, 2, 3, 8] \<noteq> []
   \<and> fst (CommissionService_bulkPayCommissions failing_transport 99 [1, 2, 3, 8] ''U1'' demo_ledger)
       = fst (CommissionService_bulkPayCommissions demo_transport 99 [1, 2, 3, 8] ''U1'' demo_ledger)
   \<and> (\<exists>data message.
         fst (CommissionService_bulkPayCommissions failing_transport 99 [1, 2, 3, 8] ''U1'' demo_ledger)
           = Success data message 200)
   \<and> list_all
        (\<lambda>c. is_paid (snd (CommissionService_bulkPayCommissions failing_transport 99 [1, 2, 3, 8] ''U1''
           demo_ledger)) (c_id c))
        (Commission_find_pending demo_ledger [1, 2, 3, 8])
   \<and> (ERROR, ''Email sending failed:'')
        \<in> set (logs (snd (CommissionService_bulkPayCommissions failing_transport 99 [1, 2, 3, 8] ''U1''
             demo_ledger)))"
proof -
  have a1: "Commission_findById demo_ledger 1 = Some (demo_commission 1 4 10 PENDING)" by code_simp
  have a2: "c_paymentStatus (demo_commission 1 4 10 PENDING) \<noteq> PAID" by code_simp
  have a3: "doctors demo_ledger (c_doctorId (demo_commission 1 4 10 PENDING)) = Some demo_doctor"
    by code_simp
  have a4: "\<forall>m. \<not> failing_transport m" by (simp add: failing_transport_def)
  have b1: "ledger_wf demo_ledger" by code_simp
  have b2: "Commission_find_pending demo_ledger [1, 2, 3, 8] \<noteq> []" by code_simp
  note t = notification_failure_is_swallowed [where s = demo_ledger and tr = failing_transport
      and tr' = demo_transport and now = 99 and paidBy = "''U1''" and commissionId = 1
      and commissionIds = "[1, 2, 3, 8]"]
  note P0 = t [THEN conjunct1]
  note B0 = t [THEN conjunct2, THEN conjunct2, THEN conjunct1]
  note P = t [THEN conjunct2, THEN conjunct2, THEN conjunct2, THEN conjunct2, THEN conjunct1,
      THEN mp, OF conjI [OF a1 conjI [OF a2 conjI [OF a3 a4]]]]
  note B = t [THEN conjunct2, THEN conjunct2, THEN conjunct2, THEN conjunct2, THEN conjunct2,
      THEN mp, OF conjI [OF b1 conjI [OF b2 a4]]]
  have B3: "list_all
        (\<lambda>c. is_paid (snd (CommissionService_bulkPayCommissions failing_transport 99 [1, 2, 3, 8] ''U1''
           demo_ledger)) (c_id c))
        (Commission_find_pending demo_ledger [1, 2, 3, 8])"
    using B [THEN conjunct2, THEN conjunct1] by (simp only: list_all_iff)
  show ?thesis
    using a1 a2 a3 a4 b1 b2 P0 B0 P B B3 by (intro conjI) blast+
qed

section \<open>The commission amount of a created order\<close>














lemma order_commission_without_rate_filter:
  "fst (OPDController_createTestOrder demo_collaborators (Some ''BR001'') (demo_request [4]) demo_state)
     = (201, Success (demo_created [4] 250 275) ''Test order created successfully'' 200)
   \<and> map (\<lambda>c. (c_orderId c, c_amount c))
        (commissions (snd (OPDController_createTestOrder demo_collaborators (Some ''BR001'')
           (demo_request [4]) demo_state)))
     = [(4, 10), (5, 0)]"
  by code_simp

section \<open>The profit margin of the financial statement\<close>












subsection \<open>Branch scope of the accounts reports\<close>









end
